theory Spec2Isabelle
  imports Main
begin

section \<open>JavaScript objects used as dictionaries\<close>

text \<open>
  The servers keep their sessions and the players of a session in plain objects
  (\<^verbatim>\<open>Record<string, Session>\<close>, \<^verbatim>\<open>{ [playerId: string]: PlayerData }\<close>).
  An object is modelled as an association list with distinct keys, held in the order in
  which \<^verbatim>\<open>for ... in\<close>, \<^verbatim>\<open>Object.keys\<close> and \<^verbatim>\<open>Object.values\<close> enumerate it:
  keys that are array indices first, in ascending numeric order, then all other keys in
  the order of their insertion. Assigning to an existing key keeps its place.

  Reading \<^verbatim>\<open>obj[key]\<close> finds the object's own property or else the property that
  \<^verbatim>\<open>Object.prototype\<close> has under that name, which is a function (for \<^verbatim>\<open>__proto__\<close> the
  prototype itself): a value that counts as true and has none of the fields of a session.
  \<open>js_get\<close> is the own property, \<open>js_lookup\<close> is \<^verbatim>\<open>obj[key]\<close>. The handlers read the
  registries with keys that the client sends, by \<open>js_lookup\<close>. They read the players of a
  session with \<^verbatim>\<open>socket.id\<close>, which the transport generates and which is taken not to be
  a property name of \<^verbatim>\<open>Object.prototype\<close>: there \<^verbatim>\<open>obj[key]\<close> is the own property.
\<close>

type_synonym 'v obj = "(string \<times> 'v) list"

definition is_digit :: "char \<Rightarrow> bool" where
  "is_digit c = (c \<in> set ''0123456789'')"

definition dec_value :: "string \<Rightarrow> nat" where
  "dec_value k = foldl (\<lambda>n c. 10 * n + (of_char c - 48)) 0 k"

definition is_array_index :: "string \<Rightarrow> bool" where
  "is_array_index k =
     (k \<noteq> [] \<and> list_all is_digit k \<and> (if hd k = CHR ''0'' then k = ''0'' else True) \<and>
      dec_value k < 4294967295)"

definition key_before :: "string \<Rightarrow> string \<Rightarrow> bool" where
  "key_before k k' =
     (is_array_index k \<and> (if is_array_index k' then dec_value k < dec_value k' else True))"

fun insert_new :: "string \<Rightarrow> 'v \<Rightarrow> 'v obj \<Rightarrow> 'v obj" where
  "insert_new k v [] = [(k, v)]"
| "insert_new k v (e # al) =
     (if key_before k (fst e) then (k, v) # e # al else e # insert_new k v al)"

definition js_get :: "'v obj \<Rightarrow> string \<Rightarrow> 'v option" where
  "js_get al k = map_of al k"

definition js_set :: "string \<Rightarrow> 'v \<Rightarrow> 'v obj \<Rightarrow> 'v obj" where
  "js_set k v al =
     (if js_get al k = None then insert_new k v al
      else map (\<lambda>e. if fst e = k then (k, v) else e) al)"

definition prototype_names :: "string list" where
  "prototype_names =
     [''constructor'', ''__proto__'', ''hasOwnProperty'', ''isPrototypeOf'',
      ''propertyIsEnumerable'', ''toLocaleString'', ''toString'', ''valueOf'',
      ''__defineGetter__'', ''__defineSetter__'', ''__lookupGetter__'', ''__lookupSetter__'']"

datatype 'v property = Own 'v | Inherited | Undefined

definition js_lookup :: "'v obj \<Rightarrow> string \<Rightarrow> 'v property" where
  "js_lookup al k =
     (case js_get al k of
        Some v \<Rightarrow> Own v
      | None \<Rightarrow> if k \<in> set prototype_names then Inherited else Undefined)"

definition js_delete :: "string \<Rightarrow> 'v obj \<Rightarrow> 'v obj" where
  "js_delete k al = filter (\<lambda>e. fst e \<noteq> k) al"

definition js_values :: "'v obj \<Rightarrow> 'v list" where
  "js_values al = map snd al"

section \<open>Data model\<close>

text \<open>
  \<^verbatim>\<open>playerInfo\<close> arrives from the client and is stored as it is; the record has the fields
  the handlers read (\<^verbatim>\<open>role\<close> is read by \<^verbatim>\<open>request_session\<close> and \<^verbatim>\<open>disconnect\<close> although
  the interface does not declare it). Numbers are only stored and passed on, never
  computed with, and are modelled as integers. An optional field is an \<open>option\<close>;
  \<open>None\<close> is JavaScript's \<^verbatim>\<open>undefined\<close>.
\<close>

record PlayerData =
  x :: int
  y :: int
  character :: string
  username :: string
  score :: int
  user_id :: int
  role :: "string option"

record Session =
  roomCode :: string
  quizId :: string
  players :: "PlayerData obj"
  adminToken :: "string option"
  cleanupTimeout :: "nat option"

section \<open>Room codes\<close>

definition chars :: string where
  "chars = ''ABCDEFGHIJKLMNPQRSTUVWXYZ123456789''"

definition charAt :: "string \<Rightarrow> nat \<Rightarrow> string" where
  "charAt s i = (if i < length s then [s ! i] else [])"

text \<open>
  A handler run receives its environment: the draws of \<^verbatim>\<open>Math.random\<close>, where \<open>draws e p\<close>
  is the value of \<^verbatim>\<open>Math.floor(Math.random() * chars.length)\<close> at the \<open>p\<close>-th call of
  \<^verbatim>\<open>Math.random\<close> in that run, and \<open>frames e\<close>, the number of nested calls of
  \<^verbatim>\<open>generateRoomCode\<close> that the call stack holds. \<open>code_loop n rnd p code\<close> is the \<^verbatim>\<open>for\<close>
  loop with \<open>n\<close> iterations left.
\<close>

datatype error = RangeError | TypeError

record env =
  draws :: "nat \<Rightarrow> nat"
  frames :: nat

fun code_loop :: "nat \<Rightarrow> (nat \<Rightarrow> nat) \<Rightarrow> nat \<Rightarrow> string \<Rightarrow> string" where
  "code_loop 0 rnd p code = code"
| "code_loop (Suc n) rnd p code = code_loop n rnd (Suc p) (code @ charAt chars (rnd p))"

definition sample :: "(nat \<Rightarrow> nat) \<Rightarrow> nat \<Rightarrow> string" where
  "sample rnd p = code_loop 6 rnd p []"

text \<open>
  \<^verbatim>\<open>generateRoomCode\<close> retries by calling itself, and the call is not a tail call that
  the engine removes: every retry takes a stack frame, and the call that finds no frame
  left raises \<^verbatim>\<open>RangeError\<close> (maximum call stack size exceeded). \<open>resample n used\<close> is
  the recursion shared by the two versions of the function, which differ in the test
  \<open>used\<close> only, with \<open>n\<close> frames left.
\<close>

fun resample :: "nat \<Rightarrow> (string \<Rightarrow> bool) \<Rightarrow> (nat \<Rightarrow> nat) \<Rightarrow> nat \<Rightarrow> error + string" where
  "resample 0 used rnd p = Inl RangeError"
| "resample (Suc n) used rnd p =
     (let code = sample rnd p in
      if used code then resample n used rnd (p + 6) else Inr code)"

text \<open>\<^verbatim>\<open>server.ts\<close> and the single-registry revisions: the code is in use when some
  session of \<^verbatim>\<open>activeSessions\<close> has it.\<close>

definition isCodeInUse :: "Session obj \<Rightarrow> string \<Rightarrow> bool" where
  "isCodeInUse reg code = list_ex (\<lambda>session. roomCode session = code) (js_values reg)"

definition generateRoomCode :: "env \<Rightarrow> nat \<Rightarrow> Session obj \<Rightarrow> error + string" where
  "generateRoomCode e p reg = resample (frames e) (isCodeInUse reg) (draws e) p"

text \<open>\<^verbatim>\<open>part_002\<close> (and the second file of \<^verbatim>\<open>part_001\<close>): the code is in use when
  \<^verbatim>\<open>activeSessionsByRoomCode[code]\<close> counts as true.\<close>

definition generateRoomCode2 :: "env \<Rightarrow> nat \<Rightarrow> nat obj \<Rightarrow> error + string" where
  "generateRoomCode2 e p byRoomCode =
     resample (frames e) (\<lambda>code. js_lookup byRoomCode code \<noteq> Undefined) (draws e) p"

section \<open>The server with one registry\<close>

text \<open>
  This is the server of \<^verbatim>\<open>part_001\<close> (first file), the last revision with a single
  registry \<^verbatim>\<open>activeSessions\<close>. \<^verbatim>\<open>part_000\<close> is the same text without \<^verbatim>\<open>adminToken\<close>,
  \<^verbatim>\<open>quizId\<close> and \<^verbatim>\<open>admin_end_quiz\<close>: its handlers are the ones below at sessions whose
  \<open>adminToken\<close> is \<open>None\<close>, and its runs are the runs without \<^verbatim>\<open>admin_end_quiz\<close>.
  \<^verbatim>\<open>server.ts\<close> is the first revision, without scores; it has the same
  \<^verbatim>\<open>generateRoomCode\<close>.

  Node runs every handler to completion, so a handler is a function from the state to
  the new state and the list of its effects, in order. A handler that can throw has an
  \<open>outcome\<close>: it returns, or it throws an error after the effects it had by then; no
  handler changes the state before it throws. Nothing catches the error, which ends the
  process. A timer is a pending call of \<^verbatim>\<open>setTimeout\<close>: its handle, the time at which it
  is due, and what its callback captured (here \<^verbatim>\<open>quizIdToClean\<close>, in the server with two
  indexes the session). The clock counts milliseconds.
\<close>

record 'a timer =
  handle :: nat
  due :: nat
  target :: 'a

record state =
  activeSessions :: "Session obj"
  timers :: "string timer list"
  clock :: nat
  next_handle :: nat

datatype dest =
    ToSocket string
  | ToRoomExcept string string
  | ToRoom string

datatype msg =
    SessionReady string string "PlayerData obj" string
  | SessionCreated "string option"
  | SessionJoined "PlayerData obj" string
  | RoomNotFound
  | NewPlayer string PlayerData
  | LeaderboardUpdate "PlayerData list"
  | PlayerMoved string int int
  | PlayerDisconnected string
  | QuizEnded
  | ErrorEndingQuiz string "string option"

text \<open>
  \<open>Emit (ToSocket c)\<close> is \<^verbatim>\<open>socket.emit\<close> on the connection \<open>c\<close>, \<open>Emit (ToRoomExcept r c)\<close>
  is \<^verbatim>\<open>socket.to(r).emit\<close>, \<open>Emit (ToRoom r)\<close> is \<^verbatim>\<open>io.to(r).emit\<close>, \<open>Join c r\<close> is
  \<^verbatim>\<open>socket.join(r)\<close>, \<open>JoinUndefined c\<close> is \<^verbatim>\<open>socket.join(undefined)\<close>, and \<open>Fetch q l t\<close> is
  the POST of \<^verbatim>\<open>{quizId: q, leaderboard: l}\<close> to the results service with the bearer token
  \<open>t\<close>. The room code of \<^verbatim>\<open>session_created\<close> is optional: it is \<^verbatim>\<open>undefined\<close> when the
  session that was found is an inherited property.
\<close>

datatype effect =
    Emit dest msg
  | Join string string
  | JoinUndefined string
  | Fetch string "PlayerData list" "string option"

datatype 'a outcome = Returns 'a | Throws error "effect list"

text \<open>The answer of the results service: \<^verbatim>\<open>response.ok\<close>, a response that is not ok
  with its body, or an exception of \<^verbatim>\<open>fetch\<close> or of \<^verbatim>\<open>response.json\<close>.\<close>

datatype response = Ok | NotOk string | Threw

definition init :: state where
  "init = \<lparr>activeSessions = [], timers = [], clock = 0, next_handle = 0\<rparr>"

definition clearTimeout :: "nat \<Rightarrow> 'a timer list \<Rightarrow> 'a timer list" where
  "clearTimeout h ts = filter (\<lambda>t. handle t \<noteq> h) ts"

text \<open>The first session with the room code, with the key under which the registry
  holds it: \<^verbatim>\<open>Object.values(activeSessions).find(s => s.roomCode === roomCode)\<close>.\<close>

definition find_room :: "Session obj \<Rightarrow> string \<Rightarrow> (string \<times> Session) option" where
  "find_room reg rc = find (\<lambda>e. roomCode (snd e) = rc) reg"

text \<open>The first session of the \<^verbatim>\<open>for ... in\<close> loop of \<^verbatim>\<open>disconnect\<close> that has the
  connection among its players.\<close>

definition find_player :: "Session obj \<Rightarrow> string \<Rightarrow> (string \<times> Session) option" where
  "find_player reg c = find (\<lambda>e. js_get (players (snd e)) c \<noteq> None) reg"

text \<open>
  \<^verbatim>\<open>request_session\<close>: when \<^verbatim>\<open>activeSessions[quizId]\<close> is an inherited property, the handler
  takes it for the session, finds no \<^verbatim>\<open>cleanupTimeout\<close>, joins the room \<^verbatim>\<open>undefined\<close> and
  throws \<^verbatim>\<open>TypeError\<close> at \<^verbatim>\<open>session.players[socket.id] = ...\<close>, since \<^verbatim>\<open>session.players\<close> is
  \<^verbatim>\<open>undefined\<close>. A \<^verbatim>\<open>RangeError\<close> of \<^verbatim>\<open>generateRoomCode\<close> leaves the handler before it has
  done anything.
\<close>

definition request_session ::
  "string \<Rightarrow> string \<Rightarrow> PlayerData \<Rightarrow> string option \<Rightarrow> env \<Rightarrow> state \<Rightarrow>
   (state \<times> effect list) outcome" where
  "request_session c q playerInfo token e s =
     (case (case js_lookup (activeSessions s) q of
              Own session \<Rightarrow> Returns (session, activeSessions s)
            | Inherited \<Rightarrow> Throws TypeError [JoinUndefined c]
            | Undefined \<Rightarrow>
                (case generateRoomCode e 0 (activeSessions s) of
                   Inl err \<Rightarrow> Throws err []
                 | Inr code \<Rightarrow>
                     let session = \<lparr>roomCode = code, quizId = q, players = [],
                           adminToken = (if role playerInfo = Some ''admin'' then token else None),
                           cleanupTimeout = None\<rparr>
                     in Returns (session, js_set q session (activeSessions s)))) of
        Throws err out \<Rightarrow> Throws err out
      | Returns (session, reg) \<Rightarrow>
          let ts = (case cleanupTimeout session of
                      Some h \<Rightarrow> clearTimeout h (timers s)
                    | None \<Rightarrow> timers s);
              joined = session\<lparr>cleanupTimeout := None,
                         players := js_set c (playerInfo\<lparr>score := 0\<rparr>) (players session)\<rparr>
          in Returns (s\<lparr>activeSessions := js_set q joined reg, timers := ts\<rparr>,
                   [Join c (roomCode joined),
                    Emit (ToSocket c) (SessionReady q (roomCode joined) (players joined) c),
                    Emit (ToRoomExcept (roomCode joined) c) (NewPlayer c (playerInfo\<lparr>score := 0\<rparr>)),
                    Emit (ToRoom (roomCode joined)) (LeaderboardUpdate (js_values (players joined)))]))"

definition player_movement :: "string \<Rightarrow> string \<Rightarrow> int \<Rightarrow> int \<Rightarrow> state \<Rightarrow> state \<times> effect list" where
  "player_movement c rc px py s =
     (case find_room (activeSessions s) rc of
        None \<Rightarrow> (s, [])
      | Some (q, session) \<Rightarrow>
          (case js_get (players session) c of
             None \<Rightarrow> (s, [])
           | Some p \<Rightarrow>
               (s\<lparr>activeSessions :=
                    js_set q (session\<lparr>players := js_set c (p\<lparr>x := px, y := py\<rparr>) (players session)\<rparr>)
                      (activeSessions s)\<rparr>,
                [Emit (ToRoomExcept rc c) (PlayerMoved c px py)])))"

definition update_score :: "string \<Rightarrow> string \<Rightarrow> int \<Rightarrow> state \<Rightarrow> state \<times> effect list" where
  "update_score c rc sc s =
     (case find_room (activeSessions s) rc of
        None \<Rightarrow> (s, [])
      | Some (q, session) \<Rightarrow>
          (case js_get (players session) c of
             None \<Rightarrow> (s, [])
           | Some p \<Rightarrow>
               let ps = js_set c (p\<lparr>score := sc\<rparr>) (players session)
               in (s\<lparr>activeSessions := js_set q (session\<lparr>players := ps\<rparr>) (activeSessions s)\<rparr>,
                   [Emit (ToRoom rc) (LeaderboardUpdate (js_values ps))])))"

text \<open>
  \<^verbatim>\<open>admin_end_quiz\<close> is the only asynchronous handler. It is modelled as one step that is
  given the answer of the results service: no other event is taken between the request
  and the answer.
\<close>

definition admin_end_quiz ::
  "string \<Rightarrow> string \<Rightarrow> string option \<Rightarrow> response \<Rightarrow> state \<Rightarrow> state \<times> effect list" where
  "admin_end_quiz c rc token resp s =
     (case find_room (activeSessions s) rc of
        None \<Rightarrow> (s, [Emit (ToSocket c) (ErrorEndingQuiz ''Unauthorized or invalid session.'' None)])
      | Some (q, session) \<Rightarrow>
          if adminToken session = token then
            let leaderboard = js_values (players session);
                call = Fetch (quizId session) leaderboard token
            in (case resp of
                  Ok \<Rightarrow>
                    (s\<lparr>activeSessions := js_delete (quizId session) (activeSessions s)\<rparr>,
                     [call, Emit (ToRoom rc) QuizEnded])
                | NotOk errorData \<Rightarrow>
                    (s, [call, Emit (ToSocket c)
                                 (ErrorEndingQuiz ''Failed to save results.'' (Some errorData))])
                | Threw \<Rightarrow>
                    (s, [call, Emit (ToSocket c)
                                 (ErrorEndingQuiz ''Server error while trying to end quiz.'' None)]))
          else (s, [Emit (ToSocket c) (ErrorEndingQuiz ''Unauthorized or invalid session.'' None)]))"

text \<open>JavaScript's truth value of an optional string: \<^verbatim>\<open>undefined\<close>, \<^verbatim>\<open>null\<close> and the
  empty string are false.\<close>

definition truthy :: "string option \<Rightarrow> bool" where
  "truthy v = (case v of None \<Rightarrow> False | Some t \<Rightarrow> t \<noteq> [])"

definition disconnect :: "string \<Rightarrow> state \<Rightarrow> state \<times> effect list" where
  "disconnect c s =
     (case find_player (activeSessions s) c of
        None \<Rightarrow> (s, [])
      | Some (q, session) \<Rightarrow>
          let roomCodeToNotify = roomCode session;
              was_admin = (case js_get (players session) c of
                             None \<Rightarrow> False
                           | Some p \<Rightarrow> role p = Some ''admin'');
              session1 = (if truthy (adminToken session) \<and> was_admin
                          then session\<lparr>adminToken := None\<rparr> else session);
              session2 = session1\<lparr>players := js_delete c (players session1)\<rparr>;
              quizIdToClean = (if players session2 = [] then Some q else None);
              out = Emit (ToRoom roomCodeToNotify) (PlayerDisconnected c) #
                    (if players session2 = [] then []
                     else [Emit (ToRoom roomCodeToNotify)
                             (LeaderboardUpdate (js_values (players session2)))])
          in if truthy quizIdToClean then
               (s\<lparr>activeSessions :=
                    js_set q (session2\<lparr>cleanupTimeout := Some (next_handle s)\<rparr>) (activeSessions s),
                  timers := timers s @ [\<lparr>handle = next_handle s, due = clock s + 60000, target = q\<rparr>],
                  next_handle := Suc (next_handle s)\<rparr>, out)
             else (s\<lparr>activeSessions := js_set q session2 (activeSessions s)\<rparr>, out))"

text \<open>
  Time passes by \<open>elapse d\<close>: the timers that are due run in the order in which they were
  set (all delays are equal, so this is the order of their due times), each callback
  deleting \<^verbatim>\<open>activeSessions[quizIdToClean]\<close>.
\<close>

fun fire_timers :: "string timer list \<Rightarrow> Session obj \<Rightarrow> Session obj" where
  "fire_timers [] reg = reg"
| "fire_timers (t # ts) reg = fire_timers ts (js_delete (target t) reg)"

definition elapse :: "nat \<Rightarrow> state \<Rightarrow> state" where
  "elapse d s =
     (let now = clock s + d in
      s\<lparr>clock := now,
        timers := filter (\<lambda>t. now < due t) (timers s),
        activeSessions := fire_timers (filter (\<lambda>t. due t \<le> now) (timers s)) (activeSessions s)\<rparr>)"

datatype event =
    RequestSession string string PlayerData "string option" env
  | PlayerMovement string string int int
  | UpdateScore string string int
  | AdminEndQuiz string string "string option" response
  | Disconnect string
  | Elapse nat

fun step :: "event \<Rightarrow> state \<Rightarrow> (state \<times> effect list) outcome" where
  "step (RequestSession c q playerInfo token e) s = request_session c q playerInfo token e s"
| "step (PlayerMovement c rc px py) s = Returns (player_movement c rc px py s)"
| "step (UpdateScore c rc sc) s = Returns (update_score c rc sc s)"
| "step (AdminEndQuiz c rc token resp) s = Returns (admin_end_quiz c rc token resp s)"
| "step (Disconnect c) s = Returns (disconnect c s)"
| "step (Elapse d) s = Returns (elapse d s, [])"

text \<open>A run of the server from a state: the state after the events, \<open>None\<close> when one of
  the handlers throws.\<close>

fun run :: "event list \<Rightarrow> state \<Rightarrow> state option" where
  "run [] s = Some s"
| "run (e # es) s =
     (case step e s of Throws err out \<Rightarrow> None | Returns (s', out) \<Rightarrow> run es s')"

section \<open>The server with two indexes\<close>

text \<open>
  This is the server of \<^verbatim>\<open>part_002\<close>; the second file of \<^verbatim>\<open>part_001\<close> is the same with
  logging. The two indexes \<^verbatim>\<open>activeSessionsByQuizId\<close> and \<^verbatim>\<open>activeSessionsByRoomCode\<close> hold
  references to the same session objects, and the callback of a cleanup timer captures
  the session object. The store \<open>objects\<close> maps a reference to the object it denotes;
  the references below \<open>next_ref\<close> are allocated. \<^verbatim>\<open>playerInfo\<close> is stored as received.
\<close>

record state2 =
  objects :: "nat \<Rightarrow> Session"
  next_ref :: nat
  activeSessionsByQuizId :: "nat obj"
  activeSessionsByRoomCode :: "nat obj"
  timers2 :: "nat timer list"
  clock2 :: nat
  next_handle2 :: nat

definition no_session :: Session where
  "no_session = \<lparr>roomCode = [], quizId = [], players = [], adminToken = None,
                  cleanupTimeout = None\<rparr>"

definition init2 :: state2 where
  "init2 = \<lparr>objects = (\<lambda>r. no_session), next_ref = 0, activeSessionsByQuizId = [],
             activeSessionsByRoomCode = [], timers2 = [], clock2 = 0, next_handle2 = 0\<rparr>"

text \<open>
  With an inherited property for the session, \<^verbatim>\<open>request_session\<close> of \<^verbatim>\<open>part_002\<close> creates
  nothing and answers \<^verbatim>\<open>session_created\<close> with the room code \<^verbatim>\<open>undefined\<close>; \<^verbatim>\<open>join_game\<close> joins
  the room and throws at \<^verbatim>\<open>session.players[socket.id] = playerInfo\<close>; \<^verbatim>\<open>player_movement\<close>
  throws at \<^verbatim>\<open>session?.players[socket.id]\<close>.
\<close>

definition request_session2 ::
  "string \<Rightarrow> string \<Rightarrow> env \<Rightarrow> state2 \<Rightarrow> (state2 \<times> effect list) outcome" where
  "request_session2 c q e s =
     (case js_lookup (activeSessionsByQuizId s) q of
        Inherited \<Rightarrow> Returns (s, [Emit (ToSocket c) (SessionCreated None)])
      | Own r \<Rightarrow>
          let session = objects s r;
              s2 = (case cleanupTimeout session of
                      Some h \<Rightarrow>
                        s\<lparr>timers2 := clearTimeout h (timers2 s),
                          objects := (objects s)(r := session\<lparr>cleanupTimeout := None\<rparr>)\<rparr>
                    | None \<Rightarrow> s)
          in Returns (s2, [Emit (ToSocket c) (SessionCreated (Some (roomCode session)))])
      | Undefined \<Rightarrow>
          (case generateRoomCode2 e 0 (activeSessionsByRoomCode s) of
             Inl err \<Rightarrow> Throws err []
           | Inr code \<Rightarrow>
               let session = \<lparr>roomCode = code, quizId = q, players = [],
                     adminToken = None, cleanupTimeout = None\<rparr>;
                   r = next_ref s
               in Returns (s\<lparr>objects := (objects s)(r := session),
                             next_ref := Suc r,
                             activeSessionsByQuizId := js_set q r (activeSessionsByQuizId s),
                             activeSessionsByRoomCode :=
                               js_set code r (activeSessionsByRoomCode s)\<rparr>,
                           [Emit (ToSocket c) (SessionCreated (Some code))])))"

definition join_game ::
  "string \<Rightarrow> string \<Rightarrow> PlayerData \<Rightarrow> state2 \<Rightarrow> (state2 \<times> effect list) outcome" where
  "join_game c rc playerInfo s =
     (case js_lookup (activeSessionsByRoomCode s) rc of
        Undefined \<Rightarrow> Returns (s, [Emit (ToSocket c) RoomNotFound])
      | Inherited \<Rightarrow> Throws TypeError [Join c rc]
      | Own r \<Rightarrow>
          let session = objects s r;
              ps = js_set c playerInfo (players session)
          in Returns (s\<lparr>objects := (objects s)(r := session\<lparr>players := ps\<rparr>)\<rparr>,
              [Join c rc,
               Emit (ToSocket c) (SessionJoined ps c),
               Emit (ToRoomExcept rc c) (NewPlayer c playerInfo)]))"

definition player_movement2 ::
  "string \<Rightarrow> string \<Rightarrow> int \<Rightarrow> int \<Rightarrow> state2 \<Rightarrow> (state2 \<times> effect list) outcome" where
  "player_movement2 c rc px py s =
     (case js_lookup (activeSessionsByRoomCode s) rc of
        Undefined \<Rightarrow> Returns (s, [])
      | Inherited \<Rightarrow> Throws TypeError []
      | Own r \<Rightarrow>
          let session = objects s r in
          (case js_get (players session) c of
             None \<Rightarrow> Returns (s, [])
           | Some p \<Rightarrow>
               Returns (s\<lparr>objects := (objects s)
                    (r := session\<lparr>players := js_set c (p\<lparr>x := px, y := py\<rparr>) (players session)\<rparr>)\<rparr>,
                [Emit (ToRoomExcept rc c) (PlayerMoved c px py)])))"

definition disconnect2 :: "string \<Rightarrow> state2 \<Rightarrow> state2 \<times> effect list" where
  "disconnect2 c s =
     (case find (\<lambda>e. js_get (players (objects s (snd e))) c \<noteq> None) (activeSessionsByRoomCode s) of
        None \<Rightarrow> (s, [])
      | Some (rc, r) \<Rightarrow>
          let session = objects s r;
              session1 = session\<lparr>players := js_delete c (players session)\<rparr>;
              out = [Emit (ToRoom rc) (PlayerDisconnected c)]
          in if players session1 = [] then
               (s\<lparr>objects := (objects s)(r := session1\<lparr>cleanupTimeout := Some (next_handle2 s)\<rparr>),
                  timers2 := timers2 s @
                    [\<lparr>handle = next_handle2 s, due = clock2 s + 60000, target = r\<rparr>],
                  next_handle2 := Suc (next_handle2 s)\<rparr>, out)
             else (s\<lparr>objects := (objects s)(r := session1)\<rparr>, out))"

text \<open>The callback of a cleanup timer deletes \<^verbatim>\<open>activeSessionsByQuizId[session.quizId]\<close> and
  \<^verbatim>\<open>activeSessionsByRoomCode[session.roomCode]\<close>, for the session it captured.\<close>

fun fire_timers2 :: "nat timer list \<Rightarrow> state2 \<Rightarrow> state2" where
  "fire_timers2 [] s = s"
| "fire_timers2 (t # ts) s =
     fire_timers2 ts
       (s\<lparr>activeSessionsByQuizId :=
            js_delete (quizId (objects s (target t))) (activeSessionsByQuizId s),
          activeSessionsByRoomCode :=
            js_delete (roomCode (objects s (target t))) (activeSessionsByRoomCode s)\<rparr>)"

definition elapse2 :: "nat \<Rightarrow> state2 \<Rightarrow> state2" where
  "elapse2 d s =
     (let now = clock2 s + d in
      fire_timers2 (filter (\<lambda>t. due t \<le> now) (timers2 s))
        (s\<lparr>clock2 := now, timers2 := filter (\<lambda>t. now < due t) (timers2 s)\<rparr>))"

datatype event2 =
    RequestSession2 string string env
  | JoinGame string string PlayerData
  | PlayerMovement2 string string int int
  | Disconnect2 string
  | Elapse2 nat

fun step2 :: "event2 \<Rightarrow> state2 \<Rightarrow> (state2 \<times> effect list) outcome" where
  "step2 (RequestSession2 c q e) s = request_session2 c q e s"
| "step2 (JoinGame c rc playerInfo) s = join_game c rc playerInfo s"
| "step2 (PlayerMovement2 c rc px py) s = player_movement2 c rc px py s"
| "step2 (Disconnect2 c) s = Returns (disconnect2 c s)"
| "step2 (Elapse2 d) s = Returns (elapse2 d s, [])"

fun run2 :: "event2 list \<Rightarrow> state2 \<Rightarrow> state2 option" where
  "run2 [] s = Some s"
| "run2 (e # es) s =
     (case step2 e s of Throws err out \<Rightarrow> None | Returns (s', out) \<Rightarrow> run2 es s')"

section \<open>Scenarios\<close>

text \<open>
  The inputs of the concrete runs below. \<open>tape_A\<close> is the environment in which every draw of
  \<^verbatim>\<open>Math.random\<close> selects the symbol \<^verbatim>\<open>A\<close>, \<open>tape_B\<close> the one in which every draw selects
  \<^verbatim>\<open>B\<close>; in both the stack holds ten thousand calls of \<^verbatim>\<open>generateRoomCode\<close>. \<open>alice\<close> and
  \<open>bob\<close> are players, \<open>teacher\<close> declares the role \<^verbatim>\<open>admin\<close>.
\<close>

definition tape_A :: env where
  "tape_A = \<lparr>draws = (\<lambda>p. 0), frames = 10000\<rparr>"

definition tape_B :: env where
  "tape_B = \<lparr>draws = (\<lambda>p. 1), frames = 10000\<rparr>"

definition alice :: PlayerData where
  "alice = \<lparr>x = 1, y = 2, character = ''cat'', username = ''alice'', score = 0, user_id = 1,
            role = None\<rparr>"

definition bob :: PlayerData where
  "bob = \<lparr>x = 5, y = 5, character = ''dog'', username = ''bob'', score = 0, user_id = 3,
          role = None\<rparr>"

definition teacher :: PlayerData where
  "teacher = \<lparr>x = 0, y = 0, character = ''owl'', username = ''teacher'', score = 0, user_id = 2,
              role = Some ''admin''\<rparr>"

text \<open>A session of the quiz \<^verbatim>\<open>quiz42\<close> in the room \<^verbatim>\<open>AAAAAA\<close> with the given players, admin
  token and timer handle, and the state that holds just this session.\<close>

definition room_A :: "PlayerData obj \<Rightarrow> string option \<Rightarrow> nat option \<Rightarrow> Session" where
  "room_A ps tok h = \<lparr>roomCode = ''AAAAAA'', quizId = ''quiz42'', players = ps,
                      adminToken = tok, cleanupTimeout = h\<rparr>"

definition lobby :: state where
  "lobby = \<lparr>activeSessions = [(''quiz42'', room_A [(''a'', alice)] None None)], timers = [],
            clock = 0, next_handle = 0\<rparr>"

text \<open>What a run of the server with two indexes shows: the two indexes, the pending timers
  and the allocated session objects.\<close>

definition view2 :: "state2 \<Rightarrow> nat obj \<times> nat obj \<times> nat timer list \<times> Session list" where
  "view2 s = (activeSessionsByQuizId s, activeSessionsByRoomCode s, timers2 s,
              map (objects s) [0..<next_ref s])"

text \<open>A session with two players who have scored, and the state of the server with two
  indexes that holds the session of \<open>lobby\<close>.\<close>

definition duo :: state where
  "duo = \<lparr>activeSessions =
            [(''quiz42'', room_A [(''a'', alice\<lparr>score := 3\<rparr>), (''b'', bob\<lparr>score := 4\<rparr>)] None None)],
          timers = [], clock = 0, next_handle = 0\<rparr>"

definition lobby2 :: state2 where
  "lobby2 = \<lparr>objects = (\<lambda>r. if r = 0 then room_A [(''a'', alice)] None None else no_session),
             next_ref = 1, activeSessionsByQuizId = [(''quiz42'', 0)],
             activeSessionsByRoomCode = [(''AAAAAA'', 0)], timers2 = [], clock2 = 0,
             next_handle2 = 0\<rparr>"

section \<open>Reachable states and invariants\<close>

text \<open>
  The states the server with one registry can reach from the empty registry, by any
  events; \<open>reachable0\<close> are those it reaches without \<^verbatim>\<open>admin_end_quiz\<close>, which are the
  runs of \<^verbatim>\<open>part_000\<close>. \<open>wf_reg\<close> says that the registry is an object (its keys are
  distinct, as are the keys of every roster), that a session is held under its quiz id, and
  that no two sessions share a room code. \<open>tinv\<close> says that the pending timers and the
  \<^verbatim>\<open>cleanupTimeout\<close> handles of the sessions correspond: every pending timer is the one
  its target session records, and a session that records a handle is empty and has that
  timer pending, due within the next 60 seconds.
\<close>

inductive reachable :: "state \<Rightarrow> bool" where
  reachable_init: "reachable init"
| reachable_step: "reachable s \<Longrightarrow> step e s = Returns (s', out) \<Longrightarrow> reachable s'"

definition wf_reg :: "Session obj \<Rightarrow> bool" where
  "wf_reg reg =
     (distinct (map fst reg) \<and>
      list_all (\<lambda>e. quizId (snd e) = fst e \<and> distinct (map fst (players (snd e)))) reg \<and>
      distinct (map (\<lambda>e. roomCode (snd e)) reg))"

fun original :: "event \<Rightarrow> bool" where
  "original (AdminEndQuiz c rc token resp) = False"
| "original e = True"

inductive reachable0 :: "state \<Rightarrow> bool" where
  reachable0_init: "reachable0 init"
| reachable0_step: "reachable0 s \<Longrightarrow> original e \<Longrightarrow> step e s = Returns (s', out) \<Longrightarrow> reachable0 s'"

definition tinv :: "state \<Rightarrow> bool" where
  "tinv s \<longleftrightarrow>
     distinct (map fst (activeSessions s)) \<and>
     distinct (map handle (timers s)) \<and>
     (\<forall>t\<in>set (timers s).
        handle t < next_handle s \<and> clock s < due t \<and> due t \<le> clock s + 60000 \<and>
        (\<exists>session. js_get (activeSessions s) (target t) = Some session \<and>
           cleanupTimeout session = Some (handle t))) \<and>
     (\<forall>q session h.
        js_get (activeSessions s) q = Some session \<and> cleanupTimeout session = Some h \<longrightarrow>
        players session = [] \<and> (\<exists>t\<in>set (timers s). handle t = h \<and> target t = q))"

section \<open>Facts about objects\<close>

lemma map_of_insert_new:
  "map_of al k = None \<Longrightarrow> map_of (insert_new k v al) k' = (if k' = k then Some v else map_of al k')"
  by (induction al) (auto split: if_splits)

lemma map_of_replace:
  "map_of (map (\<lambda>e. if fst e = k then (k, v) else e) al) k' =
     (if k' = k then map_option (\<lambda>_. v) (map_of al k) else map_of al k')"
  by (induction al) auto

lemma js_get_js_set: "js_get (js_set k v al) k' = (if k' = k then Some v else js_get al k')"
  unfolding js_get_def js_set_def
  by (cases "map_of al k") (simp_all add: map_of_insert_new map_of_replace)

lemma js_get_js_delete: "js_get (js_delete k al) k' = (if k' = k then None else js_get al k')"
  unfolding js_get_def js_delete_def
  by (induction al) auto

lemma keys_insert_new: "set (map fst (insert_new k v al)) = insert k (set (map fst al))"
  by (induction al) auto

lemma keys_js_set_present: "js_get al k \<noteq> None \<Longrightarrow> map fst (js_set k v al) = map fst al"
  unfolding js_set_def by (simp add: comp_def if_distrib cong: if_cong) (induction al, auto)

lemma distinct_insert_new:
  "distinct (map fst al) \<Longrightarrow> k \<notin> set (map fst al) \<Longrightarrow> distinct (map fst (insert_new k v al))"
  by (induction al) (auto simp: keys_insert_new simp del: set_map)

lemma js_get_None_iff: "js_get al k = None \<longleftrightarrow> k \<notin> set (map fst al)"
  unfolding js_get_def by (simp add: map_of_eq_None_iff)

lemma distinct_js_set: "distinct (map fst al) \<Longrightarrow> distinct (map fst (js_set k v al))"
proof (cases "js_get al k")
  case None
  assume "distinct (map fst al)"
  with None show ?thesis
    by (simp add: js_set_def distinct_insert_new js_get_None_iff del: set_map)
next
  case (Some a)
  assume "distinct (map fst al)"
  with Some show ?thesis by (simp add: keys_js_set_present)
qed

lemma distinct_js_delete: "distinct (map fst al) \<Longrightarrow> distinct (map fst (js_delete k al))"
  unfolding js_delete_def by (induction al) auto

lemma js_set_present_distinct:
  "distinct (map fst al) \<Longrightarrow> js_get al k = Some p \<Longrightarrow>
   js_set k (f p) al = map (\<lambda>e. if fst e = k then (k, f (snd e)) else e) al"
  unfolding js_set_def js_get_def
  by (induction al) (auto simp: rev_image_eqI)

section \<open>Facts about room codes\<close>




lemma code_loop_alphabet: "set (code_loop n rnd p code) \<subseteq> set code \<union> set chars"
  by (induction n rnd p code rule: code_loop.induct) (auto simp: charAt_def)


lemma sample_alphabet: "set (sample rnd p) \<subseteq> set chars"
  using code_loop_alphabet [of 6 rnd p "[]"] by (simp add: sample_def)

text \<open>Every property name of \<^verbatim>\<open>Object.prototype\<close> has a lower-case letter, so no sample is
  one: for a sample, \<^verbatim>\<open>activeSessionsByRoomCode[code]\<close> is the own property.\<close>

lemma prototype_names_alphabet: "k \<in> set prototype_names \<Longrightarrow> \<not> set k \<subseteq> set chars"
  by (auto simp: prototype_names_def chars_def)

lemma sample_not_inherited: "sample rnd p \<notin> set prototype_names"
  using prototype_names_alphabet [of "sample rnd p"] sample_alphabet [of rnd p] by blast

lemma js_lookup_sample:
  "js_lookup al (sample rnd p) \<noteq> Undefined \<longleftrightarrow> js_get al (sample rnd p) \<noteq> None"
  by (simp add: js_lookup_def sample_not_inherited split: option.split)

lemma js_lookup_Own: "js_get al k = Some v \<Longrightarrow> js_lookup al k = Own v"
  by (simp add: js_lookup_def)

lemma js_lookup_Undefined:
  "js_get al k = None \<Longrightarrow> k \<notin> set prototype_names \<Longrightarrow> js_lookup al k = Undefined"
  by (simp add: js_lookup_def)

lemma js_lookup_Inherited:
  "js_get al k = None \<Longrightarrow> k \<in> set prototype_names \<Longrightarrow> js_lookup al k = Inherited"
  by (simp add: js_lookup_def)

lemma resample_free:
  "0 < n \<Longrightarrow> \<not> used (sample rnd p) \<Longrightarrow> resample n used rnd p = Inr (sample rnd p)"
  by (cases n) simp_all

lemma resample_first_free:
  "k < n \<Longrightarrow> \<not> used (sample rnd (p + 6 * k)) \<Longrightarrow> \<forall>j<k. used (sample rnd (p + 6 * j)) \<Longrightarrow>
   resample n used rnd p = Inr (sample rnd (p + 6 * k))"
proof (induction k arbitrary: p n)
  case 0
  then show ?case by (simp add: resample_free)
next
  case (Suc k)
  have shift: "p + 6 + 6 * j = p + 6 * Suc j" for j by simp
  from Suc.prems(1) obtain m where n: "n = Suc m" and km: "k < m" by (cases n) auto
  from Suc.prems(3) have "used (sample rnd (p + 6 * 0))" by blast
  then have u: "used (sample rnd p)" by simp
  have "resample m used rnd (p + 6) = Inr (sample rnd (p + 6 + 6 * k))"
  proof (rule Suc.IH [OF km])
    show "\<not> used (sample rnd (p + 6 + 6 * k))"
      using Suc.prems(2) unfolding shift .
    show "\<forall>j<k. used (sample rnd (p + 6 + 6 * j))"
      unfolding shift using Suc.prems(3) by auto
  qed
  then show ?case unfolding shift n using u by simp
qed

lemma resample_returns:
  assumes "k < n" and "\<not> used (sample rnd (p + 6 * k))"
  shows "\<exists>j\<le>k. resample n used rnd p = Inr (sample rnd (p + 6 * j)) \<and>
           \<not> used (sample rnd (p + 6 * j))"
proof -
  define m where "m = (LEAST j. \<not> used (sample rnd (p + 6 * j)))"
  have f: "\<not> used (sample rnd (p + 6 * m))"
    unfolding m_def using assms(2) by (rule LeastI)
  have le: "m \<le> k" unfolding m_def using assms(2) by (rule Least_le)
  have "\<forall>j<m. used (sample rnd (p + 6 * j))"
    unfolding m_def using not_less_Least by blast
  with f le assms(1) have "resample n used rnd p = Inr (sample rnd (p + 6 * m))"
    by (intro resample_first_free) auto
  with f le show ?thesis by blast
qed

lemma resample_Inr:
  "resample n used rnd p = Inr code \<Longrightarrow> \<exists>k<n. code = sample rnd (p + 6 * k) \<and> \<not> used code"
proof (induction n arbitrary: p)
  case 0
  then show ?case by simp
next
  case (Suc n)
  show ?case
  proof (cases "used (sample rnd p)")
    case True
    with Suc.prems have "resample n used rnd (p + 6) = Inr code" by simp
    from Suc.IH [OF this] obtain k where "k < n" "code = sample rnd (p + 6 + 6 * k)" "\<not> used code"
      by blast
    then have "Suc k < Suc n \<and> code = sample rnd (p + 6 * Suc k) \<and> \<not> used code"
      by (simp add: add.assoc)
    then show ?thesis by blast
  next
    case False
    with Suc.prems have "0 < Suc n \<and> code = sample rnd (p + 6 * 0) \<and> \<not> used code" by auto
    then show ?thesis by blast
  qed
qed

lemma resample_Inl:
  "resample n used rnd p = Inl err \<Longrightarrow> err = RangeError \<and> (\<forall>k<n. used (sample rnd (p + 6 * k)))"
proof (induction n arbitrary: p)
  case 0
  then show ?case by simp
next
  case (Suc n)
  from Suc.prems have u: "used (sample rnd p)" and r: "resample n used rnd (p + 6) = Inl err"
    by (auto simp: Let_def split: if_splits)
  from Suc.IH [OF r] have e: "err = RangeError" and a: "\<forall>k<n. used (sample rnd (p + 6 + 6 * k))"
    by simp_all
  have "used (sample rnd (p + 6 * k))" if "k < Suc n" for k
  proof (cases k)
    case 0
    with u show ?thesis by simp
  next
    case (Suc j)
    with that a have "used (sample rnd (p + 6 + 6 * j))" by simp
    with Suc show ?thesis by (simp add: add.assoc)
  qed
  with e show ?case by blast
qed

lemma resample_RangeError_iff:
  "resample n used rnd p = Inl RangeError \<longleftrightarrow> (\<forall>k<n. used (sample rnd (p + 6 * k)))"
proof
  assume "resample n used rnd p = Inl RangeError"
  from resample_Inl [OF this] show "\<forall>k<n. used (sample rnd (p + 6 * k))" by simp
next
  assume a: "\<forall>k<n. used (sample rnd (p + 6 * k))"
  show "resample n used rnd p = Inl RangeError"
  proof (cases "resample n used rnd p")
    case (Inl err)
    with resample_Inl [OF Inl] show ?thesis by simp
  next
    case (Inr code)
    from resample_Inr [OF Inr] a show ?thesis by auto
  qed
qed

section \<open>Evaluation of the scenarios\<close>

lemma sample_A: "sample (draws tape_A) p = ''AAAAAA''"
  by (simp add: sample_def tape_A_def chars_def charAt_def eval_nat_numeral)

lemma sample_B: "sample (draws tape_B) p = ''BBBBBB''"
  by (simp add: sample_def tape_B_def chars_def charAt_def eval_nat_numeral)

lemma frames_tape: "frames tape_A = 10000" "frames tape_B = 10000"
  by (simp_all add: tape_A_def tape_B_def)

lemmas obj_eval = js_get_def js_set_def js_delete_def js_values_def key_before_def
  is_array_index_def is_digit_def dec_value_def js_lookup_def prototype_names_def

lemmas scenario_eval = alice_def bob_def teacher_def room_A_def lobby_def init_def

lemmas handler_eval = request_session_def player_movement_def update_score_def
  admin_end_quiz_def disconnect_def elapse_def find_room_def find_player_def truthy_def
  clearTimeout_def generateRoomCode_def isCodeInUse_def resample_free sample_A sample_B
  frames_tape Let_def

lemmas handler2_eval = request_session2_def join_game_def player_movement2_def
  disconnect2_def elapse2_def clearTimeout_def generateRoomCode2_def resample_free
  sample_A sample_B frames_tape Let_def init2_def view2_def no_session_def

section \<open>Facts about the handlers\<close>

lemma find_room_None_iff:
  "find_room reg rc = None \<longleftrightarrow> (\<forall>e\<in>set reg. roomCode (snd e) \<noteq> rc)"
  by (fastforce simp: find_room_def find_None_iff)

lemma isCodeInUse_iff: "isCodeInUse reg code \<longleftrightarrow> (\<exists>e\<in>set reg. roomCode (snd e) = code)"
  by (auto simp: isCodeInUse_def js_values_def list_ex_iff)

lemma request_session_existing:
  assumes "js_get (activeSessions s) q = Some session"
  shows "\<exists>s' out session'.
     request_session c q playerInfo token e s = Returns (s', out) \<and>
     js_get (activeSessions s') q = Some session' \<and>
     roomCode session' = roomCode session \<and>
     quizId session' = quizId session \<and>
     adminToken session' = adminToken session \<and>
     cleanupTimeout session' = None \<and>
     js_get (players session') c = Some (playerInfo\<lparr>score := 0\<rparr>) \<and>
     (\<forall>c'. c' \<noteq> c \<longrightarrow> js_get (players session') c' = js_get (players session) c') \<and>
     map fst (activeSessions s') = map fst (activeSessions s) \<and>
     (\<forall>q'. q' \<noteq> q \<longrightarrow> js_get (activeSessions s') q' = js_get (activeSessions s) q') \<and>
     request_session c q playerInfo token e' s = request_session c q playerInfo token e s"
  using assms
  by (simp add: request_session_def js_lookup_Own Let_def js_get_js_set keys_js_set_present)

lemma generateRoomCode_returns:
  assumes "k < frames e" and "\<not> isCodeInUse reg (sample (draws e) (p + 6 * k))"
  shows "\<exists>code. generateRoomCode e p reg = Inr code \<and> \<not> isCodeInUse reg code"
  using resample_returns [of k "frames e" "isCodeInUse reg" "draws e" p, OF assms]
  by (auto simp: generateRoomCode_def)

lemma request_session_new:
  assumes "js_get (activeSessions s) q = None" and "q \<notin> set prototype_names"
    and "k < frames e"
    and "\<not> isCodeInUse (activeSessions s) (sample (draws e) (6 * k))"
  shows "\<exists>s' out code.
     request_session c q playerInfo token e s = Returns (s', out) \<and>
     generateRoomCode e 0 (activeSessions s) = Inr code \<and>
     \<not> isCodeInUse (activeSessions s) code \<and>
     js_get (activeSessions s') q =
       Some \<lparr>roomCode = code, quizId = q, players = [(c, playerInfo\<lparr>score := 0\<rparr>)],
             adminToken = (if role playerInfo = Some ''admin'' then token else None),
             cleanupTimeout = None\<rparr> \<and>
     (\<forall>q'. q' \<noteq> q \<longrightarrow> js_get (activeSessions s') q' = js_get (activeSessions s) q') \<and>
     timers s' = timers s"
proof -
  from generateRoomCode_returns [of k e "activeSessions s" 0] assms(3,4)
  obtain code where g: "generateRoomCode e 0 (activeSessions s) = Inr code"
    and f: "\<not> isCodeInUse (activeSessions s) code" by auto
  have "js_set c (playerInfo\<lparr>score := 0\<rparr>) [] = [(c, playerInfo\<lparr>score := 0\<rparr>)]"
    by (simp add: js_set_def js_get_def)
  with g f js_lookup_Undefined [OF assms(1,2)] show ?thesis
    by (simp add: request_session_def Let_def js_get_js_set)
qed

lemma request_session_overflow:
  assumes "js_get (activeSessions s) q = None" and "q \<notin> set prototype_names"
    and "\<forall>k<frames e. isCodeInUse (activeSessions s) (sample (draws e) (6 * k))"
  shows "request_session c q playerInfo token e s = Throws RangeError []"
proof -
  from assms(3) have "generateRoomCode e 0 (activeSessions s) = Inl RangeError"
    by (simp add: generateRoomCode_def resample_RangeError_iff)
  with js_lookup_Undefined [OF assms(1,2)] show ?thesis
    by (simp add: request_session_def)
qed

lemma request_session_inherited:
  assumes "js_get (activeSessions s) q = None" and "q \<in> set prototype_names"
  shows "request_session c q playerInfo token e s = Throws TypeError [JoinUndefined c]"
  using js_lookup_Inherited [OF assms] by (simp add: request_session_def)

lemma request_session2_existing:
  assumes "js_get (activeSessionsByQuizId s) q = Some r"
  shows "\<exists>s'.
     request_session2 c q e s =
       Returns (s', [Emit (ToSocket c) (SessionCreated (Some (roomCode (objects s r))))]) \<and>
     activeSessionsByQuizId s' = activeSessionsByQuizId s \<and>
     activeSessionsByRoomCode s' = activeSessionsByRoomCode s \<and>
     next_ref s' = next_ref s \<and>
     objects s' r = (objects s r)\<lparr>cleanupTimeout := None\<rparr> \<and>
     (\<forall>r'. r' \<noteq> r \<longrightarrow> objects s' r' = objects s r') \<and>
     request_session2 c q e' s = request_session2 c q e s"
  using js_lookup_Own [OF assms]
  by (cases "cleanupTimeout (objects s r)") (simp_all add: request_session2_def Let_def)

lemma request_session2_new:
  assumes "js_get (activeSessionsByQuizId s) q = None" and "q \<notin> set prototype_names"
    and "k < frames e"
    and "js_get (activeSessionsByRoomCode s) (sample (draws e) (6 * k)) = None"
  shows "\<exists>s' code.
     request_session2 c q e s = Returns (s', [Emit (ToSocket c) (SessionCreated (Some code))]) \<and>
     generateRoomCode2 e 0 (activeSessionsByRoomCode s) = Inr code \<and>
     js_get (activeSessionsByRoomCode s) code = None \<and>
     js_get (activeSessionsByQuizId s') q = Some (next_ref s) \<and>
     js_get (activeSessionsByRoomCode s') code = Some (next_ref s) \<and>
     objects s' (next_ref s) =
       \<lparr>roomCode = code, quizId = q, players = [], adminToken = None, cleanupTimeout = None\<rparr> \<and>
     (\<forall>q'. q' \<noteq> q \<longrightarrow>
        js_get (activeSessionsByQuizId s') q' = js_get (activeSessionsByQuizId s) q') \<and>
     (\<forall>rc. rc \<noteq> code \<longrightarrow>
        js_get (activeSessionsByRoomCode s') rc = js_get (activeSessionsByRoomCode s) rc) \<and>
     (\<forall>r. r \<noteq> next_ref s \<longrightarrow> objects s' r = objects s r)"
proof -
  let ?used = "\<lambda>code. js_lookup (activeSessionsByRoomCode s) code \<noteq> Undefined"
  from assms(4) have "\<not> ?used (sample (draws e) (0 + 6 * k))" by (simp add: js_lookup_sample)
  from resample_returns [of k "frames e" ?used "draws e" 0, OF assms(3) this]
  obtain j where g: "generateRoomCode2 e 0 (activeSessionsByRoomCode s) =
      Inr (sample (draws e) (0 + 6 * j))"
    and f: "\<not> ?used (sample (draws e) (0 + 6 * j))"
    by (auto simp: generateRoomCode2_def)
  from f have f': "js_get (activeSessionsByRoomCode s) (sample (draws e) (0 + 6 * j)) = None"
    by (simp add: js_lookup_sample)
  from g f' js_lookup_Undefined [OF assms(1,2)] show ?thesis
    by (simp add: request_session2_def Let_def js_get_js_set)
qed

lemma request_session2_overflow:
  assumes "js_get (activeSessionsByQuizId s) q = None" and "q \<notin> set prototype_names"
    and "\<forall>k<frames e. js_get (activeSessionsByRoomCode s) (sample (draws e) (6 * k)) \<noteq> None"
  shows "request_session2 c q e s = Throws RangeError []"
proof -
  from assms(3) have "generateRoomCode2 e 0 (activeSessionsByRoomCode s) = Inl RangeError"
    by (simp add: generateRoomCode2_def resample_RangeError_iff js_lookup_sample)
  with js_lookup_Undefined [OF assms(1,2)] show ?thesis
    by (simp add: request_session2_def)
qed

lemma request_session2_inherited:
  assumes "js_get (activeSessionsByQuizId s) q = None" and "q \<in> set prototype_names"
  shows "request_session2 c q e s = Returns (s, [Emit (ToSocket c) (SessionCreated None)])"
  using js_lookup_Inherited [OF assms] by (simp add: request_session2_def)

lemma find_room_Some:
  "find_room reg rc = Some (q, session) \<Longrightarrow> (q, session) \<in> set reg \<and> roomCode session = rc"
  unfolding find_room_def by (induction reg) (auto split: if_splits)

section \<open>The registry stays well formed\<close>

lemma set_insert_new: "set (insert_new k v al) = insert (k, v) (set al)"
  by (induction al) auto

lemma distinct_map_insert_new:
  "distinct (map f (insert_new k v al)) \<longleftrightarrow> f (k, v) \<notin> f ` set al \<and> distinct (map f al)"
  by (induction al) (auto simp: set_insert_new)

lemma map_of_distinct_entry:
  "distinct (map fst al) \<Longrightarrow> (k, v) \<in> set al \<Longrightarrow> js_get al k = Some v"
  by (simp add: js_get_def)

lemma entry_of_js_get: "js_get al k = Some v \<Longrightarrow> (k, v) \<in> set al"
  by (simp add: js_get_def map_of_SomeD)

lemma wf_reg_insert:
  assumes "wf_reg reg" and "js_get reg q = None" and "\<not> isCodeInUse reg (roomCode session)"
    and "quizId session = q" and "distinct (map fst (players session))"
  shows "wf_reg (js_set q session reg)"
proof -
  from assms(2) have k: "q \<notin> fst ` set reg" by (simp add: js_get_None_iff)
  from assms(3) have c: "roomCode session \<notin> (\<lambda>e. roomCode (snd e)) ` set reg"
    by (auto simp: isCodeInUse_iff)
  from assms(1,2,4,5) k c show ?thesis
    by (simp add: wf_reg_def js_set_def distinct_map_insert_new list_all_iff set_insert_new)
qed

lemma wf_reg_update:
  assumes "wf_reg reg" and "(q, session) \<in> set reg"
    and "roomCode session' = roomCode session" and "quizId session' = quizId session"
    and "distinct (map fst (players session'))"
  shows "wf_reg (js_set q session' reg)"
proof -
  from assms(1) have d: "distinct (map fst reg)" by (simp add: wf_reg_def)
  from map_of_distinct_entry [OF d assms(2)] have g: "js_get reg q = Some session" .
  have only: "e = (q, session)" if "e \<in> set reg" "fst e = q" for e
    using d that assms(2) by (metis eq_key_imp_eq_value prod.collapse)
  have q: "quizId session = q" using assms(1,2) by (auto simp: wf_reg_def list_all_iff)
  let ?h = "\<lambda>e. if fst e = q then (q, session') else e"
  have s: "js_set q session' reg = map ?h reg" using g by (simp add: js_set_def)
  have 1: "map fst (map ?h reg) = map fst reg" by (induction reg) auto
  have 2: "map (\<lambda>e. roomCode (snd e)) (map ?h reg) = map (\<lambda>e. roomCode (snd e)) reg"
    using only assms(3) by (auto simp: map_eq_conv)
  have 3: "list_all (\<lambda>e. quizId (snd e) = fst e \<and> distinct (map fst (players (snd e)))) (map ?h reg)"
    using assms(1,4,5) q by (auto simp: wf_reg_def list_all_iff)
  have a: "distinct (map fst (map ?h reg))" using d by (simp only: 1)
  have "distinct (map (\<lambda>e. roomCode (snd e)) reg)" using assms(1) by (simp add: wf_reg_def)
  then have b: "distinct (map (\<lambda>e. roomCode (snd e)) (map ?h reg))" by (simp only: 2)
  from a b 3 show ?thesis unfolding s wf_reg_def by blast
qed

lemma wf_reg_delete: "wf_reg reg \<Longrightarrow> wf_reg (js_delete k reg)"
  by (auto simp: wf_reg_def js_delete_def list_all_iff distinct_map_filter)

lemma wf_reg_fire_timers: "wf_reg reg \<Longrightarrow> wf_reg (fire_timers ts reg)"
  by (induction ts arbitrary: reg) (simp_all add: wf_reg_delete)

lemma wf_reg_players:
  "wf_reg reg \<Longrightarrow> (q, session) \<in> set reg \<Longrightarrow> distinct (map fst (players session))"
  by (auto simp: wf_reg_def list_all_iff)

lemma find_player_Some:
  "find_player reg c = Some (q, session) \<Longrightarrow> (q, session) \<in> set reg"
  unfolding find_player_def by (induction reg) (auto split: if_splits)

lemma generateRoomCode_free:
  "generateRoomCode e p reg = Inr code \<Longrightarrow> \<not> isCodeInUse reg code"
  using resample_Inr [of "frames e" "isCodeInUse reg" "draws e" p code]
  by (auto simp: generateRoomCode_def)

lemma request_session_Returns:
  assumes "request_session c q playerInfo token e s = Returns (s', out)"
  obtains (existing) session where "js_get (activeSessions s) q = Some session"
    "s' = s\<lparr>activeSessions := js_set q (session\<lparr>cleanupTimeout := None,
        players := js_set c (playerInfo\<lparr>score := 0\<rparr>) (players session)\<rparr>) (activeSessions s),
      timers := (case cleanupTimeout session of Some h \<Rightarrow> clearTimeout h (timers s)
                 | None \<Rightarrow> timers s)\<rparr>"
  | (created) code where "js_get (activeSessions s) q = None"
    "generateRoomCode e 0 (activeSessions s) = Inr code"
    "s' = s\<lparr>activeSessions :=
        js_set q \<lparr>roomCode = code, quizId = q,
                  players = js_set c (playerInfo\<lparr>score := 0\<rparr>) [],
                  adminToken = (if role playerInfo = Some ''admin'' then token else None),
                  cleanupTimeout = None\<rparr>
          (js_set q \<lparr>roomCode = code, quizId = q, players = [],
                    adminToken = (if role playerInfo = Some ''admin'' then token else None),
                    cleanupTimeout = None\<rparr> (activeSessions s))\<rparr>"
proof (cases "js_get (activeSessions s) q")
  case (Some session)
  with assms js_lookup_Own [OF Some] show ?thesis
    by (intro existing [of session]) (auto simp: request_session_def Let_def)
next
  case None
  show ?thesis
  proof (cases "q \<in> set prototype_names")
    case True
    from assms request_session_inherited [OF None True] show ?thesis by simp
  next
    case False
    from js_lookup_Undefined [OF None False] assms
    obtain code where g: "generateRoomCode e 0 (activeSessions s) = Inr code"
      by (auto simp: request_session_def split: sum.splits)
    with js_lookup_Undefined [OF None False] assms None show ?thesis
      by (intro created [of code]) (auto simp: request_session_def Let_def)
  qed
qed

lemma wf_request_session:
  assumes "wf_reg (activeSessions s)"
    and "request_session c q playerInfo token e s = Returns (s', out)"
  shows "wf_reg (activeSessions s')"
  using assms(2)
proof (cases rule: request_session_Returns)
  case (existing session)
  have m: "(q, session) \<in> set (activeSessions s)" using existing(1) by (rule entry_of_js_get)
  have "wf_reg (js_set q (session\<lparr>cleanupTimeout := None,
      players := js_set c (playerInfo\<lparr>score := 0\<rparr>) (players session)\<rparr>) (activeSessions s))"
    using assms(1) m
    by (rule wf_reg_update) (simp_all add: distinct_js_set wf_reg_players [OF assms(1) m])
  with existing(2) show ?thesis by simp
next
  case (created code)
  let ?new = "\<lparr>roomCode = code, quizId = q, players = [],
       adminToken = (if role playerInfo = Some ''admin'' then token else None),
       cleanupTimeout = None\<rparr>"
  have w1: "wf_reg (js_set q ?new (activeSessions s))"
    using assms(1) created(1) generateRoomCode_free [OF created(2)]
    by (intro wf_reg_insert) simp_all
  have m: "(q, ?new) \<in> set (js_set q ?new (activeSessions s))"
    by (rule entry_of_js_get) (simp add: js_get_js_set)
  have "wf_reg (js_set q (?new\<lparr>players := js_set c (playerInfo\<lparr>score := 0\<rparr>) []\<rparr>)
      (js_set q ?new (activeSessions s)))"
    using w1 m by (rule wf_reg_update) (simp_all add: distinct_js_set)
  with created(3) show ?thesis by simp
qed

lemma wf_player_movement:
  assumes "wf_reg (activeSessions s)"
  shows "wf_reg (activeSessions (fst (player_movement c rc px py s)))"
proof (cases "find_room (activeSessions s) rc")
  case None
  with assms show ?thesis by (simp add: player_movement_def)
next
  case (Some e)
  obtain q session where e: "e = (q, session)" by (cases e)
  from find_room_Some [OF Some [unfolded e]] have m: "(q, session) \<in> set (activeSessions s)"
    by simp
  have "wf_reg (js_set q (session\<lparr>players := js_set c p' (players session)\<rparr>) (activeSessions s))"
    for p'
    using assms m
    by (rule wf_reg_update) (simp_all add: distinct_js_set wf_reg_players [OF assms m])
  with assms Some e show ?thesis
    by (simp add: player_movement_def split: option.splits)
qed

lemma wf_update_score:
  assumes "wf_reg (activeSessions s)"
  shows "wf_reg (activeSessions (fst (update_score c rc sc s)))"
proof (cases "find_room (activeSessions s) rc")
  case None
  with assms show ?thesis by (simp add: update_score_def)
next
  case (Some e)
  obtain q session where e: "e = (q, session)" by (cases e)
  from find_room_Some [OF Some [unfolded e]] have m: "(q, session) \<in> set (activeSessions s)"
    by simp
  have "wf_reg (js_set q (session\<lparr>players := js_set c p' (players session)\<rparr>) (activeSessions s))"
    for p'
    using assms m
    by (rule wf_reg_update) (simp_all add: distinct_js_set wf_reg_players [OF assms m])
  with assms Some e show ?thesis
    by (simp add: update_score_def Let_def split: option.splits)
qed

lemma wf_admin_end_quiz:
  assumes "wf_reg (activeSessions s)"
  shows "wf_reg (activeSessions (fst (admin_end_quiz c rc token resp s)))"
  using assms
  by (auto simp: admin_end_quiz_def Let_def wf_reg_delete split: option.splits response.splits)

lemma wf_disconnect:
  assumes "wf_reg (activeSessions s)"
  shows "wf_reg (activeSessions (fst (disconnect c s)))"
proof (cases "find_player (activeSessions s) c")
  case None
  with assms show ?thesis by (simp add: disconnect_def)
next
  case (Some e)
  obtain q session where e: "e = (q, session)" by (cases e)
  from find_player_Some [OF Some [unfolded e]] have m: "(q, session) \<in> set (activeSessions s)" .
  have upd: "wf_reg (js_set q session' (activeSessions s))"
    if "roomCode session' = roomCode session" "quizId session' = quizId session"
      "distinct (map fst (players session'))" for session'
    using assms m that by (rule wf_reg_update)
  from Some e show ?thesis
    by (simp add: disconnect_def Let_def upd distinct_js_delete wf_reg_players [OF assms m])
qed

lemma wf_elapse: "wf_reg (activeSessions s) \<Longrightarrow> wf_reg (activeSessions (elapse d s))"
  by (simp add: elapse_def Let_def wf_reg_fire_timers)

lemma wf_step:
  assumes "wf_reg (activeSessions s)" and "step e s = Returns (s', out)"
  shows "wf_reg (activeSessions s')"
proof (cases e)
  case (RequestSession c q playerInfo token rnd)
  with assms show ?thesis by (auto intro: wf_request_session)
next
  case (PlayerMovement c rc px py)
  with assms wf_player_movement [of s c rc px py] show ?thesis by auto
next
  case (UpdateScore c rc sc)
  with assms wf_update_score [of s c rc sc] show ?thesis by auto
next
  case (AdminEndQuiz c rc token resp)
  with assms wf_admin_end_quiz [of s c rc token resp] show ?thesis by auto
next
  case (Disconnect c)
  with assms wf_disconnect [of s c] show ?thesis by auto
next
  case (Elapse d)
  with assms wf_elapse [of s d] show ?thesis by auto
qed

lemma reachable_wf: "reachable s \<Longrightarrow> wf_reg (activeSessions s)"
proof (induction rule: reachable.induct)
  case reachable_init
  show ?case by (simp add: init_def wf_reg_def)
next
  case (reachable_step s e s' out)
  then show ?case by (blast intro: wf_step)
qed

lemma reachable_players_distinct:
  assumes "reachable s" and "find_room (activeSessions s) rc = Some (q, session)"
  shows "distinct (map fst (players session))"
  using reachable_wf [OF assms(1)] find_room_Some [OF assms(2)] by (auto intro: wf_reg_players)

section \<open>Claim C7: the room code allocator\<close>




section \<open>Claims C6 and C10: request_session\<close>

text \<open>
  Claim C6: \<^verbatim>\<open>request_session\<close> for a quiz that has a session returns that session,
  unchanged apart from the caller's join; for every other quiz id it creates an empty
  session with a freshly allocated room code, enters it in both indexes, and binds the
  admin token exactly when the caller supplied an admin claim.

  Not for every quiz id. For a quiz id that names a property of \<^verbatim>\<open>Object.prototype\<close>, such
  as \<^verbatim>\<open>constructor\<close>, \<^verbatim>\<open>activeSessions[quizId]\<close> is the inherited function: \<^verbatim>\<open>part_001\<close> takes
  it for the session and throws \<^verbatim>\<open>TypeError\<close>, \<^verbatim>\<open>part_002\<close> answers \<^verbatim>\<open>session_created\<close> without
  a room code; neither creates a session. And when every sample that the call stack
  admits is assigned, the allocator raises \<^verbatim>\<open>RangeError\<close> and no session is created.
\<close>

theorem request_session_creates_nothing:
  "request_session ''a'' ''constructor'' alice None tape_A init =
     Throws TypeError [JoinUndefined ''a''] \<and>
   request_session2 ''a'' ''constructor'' tape_A init2 =
     Returns (init2, [Emit (ToSocket ''a'') (SessionCreated None)]) \<and>
   request_session ''b'' ''quiz7'' bob None tape_A lobby = Throws RangeError []"
proof -
  have 1: "request_session ''a'' ''constructor'' alice None tape_A init =
      Throws TypeError [JoinUndefined ''a'']"
    by (simp add: request_session_def obj_eval init_def)
  have 2: "request_session2 ''a'' ''constructor'' tape_A init2 =
      Returns (init2, [Emit (ToSocket ''a'') (SessionCreated None)])"
    by (simp add: request_session2_def obj_eval init2_def)
  have 3: "request_session ''b'' ''quiz7'' bob None tape_A lobby = Throws RangeError []"
    by (rule request_session_overflow)
      (simp_all add: obj_eval lobby_def room_A_def sample_A isCodeInUse_def)
  from 1 2 3 show ?thesis by simp
qed

text \<open>
  Claim C6 as the code has it, for a quiz id that names no property of
  \<^verbatim>\<open>Object.prototype\<close>. \<^verbatim>\<open>request_session\<close> for a quiz that has a session returns that
  session: the room code, the quiz id and the admin token stay, no code is allocated (the
  result does not depend on the environment), the other players stay, the pending cleanup
  is cancelled and, in \<^verbatim>\<open>part_001\<close>, the caller is joined with score 0; no other session and
  no key of the registry changes. For a quiz that has no session, when one of the samples
  that the call stack admits is unassigned, it creates a session with the allocated code,
  which no session had, with no players but the caller (in \<^verbatim>\<open>part_002\<close>: with no players),
  with the admin token bound to the caller's token exactly when the caller declares the
  role \<^verbatim>\<open>admin\<close>; in \<^verbatim>\<open>part_002\<close> the new session object is entered in both indexes by the one
  run of the handler, under the quiz id and under the code. When all those samples are
  assigned, the handler throws \<^verbatim>\<open>RangeError\<close> before it has done anything.
\<close>

theorem request_session_find_or_create:
  "(js_get (activeSessions s) q = Some session \<longrightarrow>
      (\<exists>s' out session'.
         request_session c q playerInfo token e s = Returns (s', out) \<and>
         js_get (activeSessions s') q = Some session' \<and>
         roomCode session' = roomCode session \<and>
         quizId session' = quizId session \<and>
         adminToken session' = adminToken session \<and>
         cleanupTimeout session' = None \<and>
         js_get (players session') c = Some (playerInfo\<lparr>score := 0\<rparr>) \<and>
         (\<forall>c'. c' \<noteq> c \<longrightarrow> js_get (players session') c' = js_get (players session) c') \<and>
         map fst (activeSessions s') = map fst (activeSessions s) \<and>
         (\<forall>q'. q' \<noteq> q \<longrightarrow> js_get (activeSessions s') q' = js_get (activeSessions s) q') \<and>
         request_session c q playerInfo token e' s = request_session c q playerInfo token e s)) \<and>
   (js_get (activeSessions s) q = None \<and> q \<notin> set prototype_names \<and> k < frames e \<and>
    \<not> isCodeInUse (activeSessions s) (sample (draws e) (6 * k)) \<longrightarrow>
      (\<exists>s' out code.
         request_session c q playerInfo token e s = Returns (s', out) \<and>
         generateRoomCode e 0 (activeSessions s) = Inr code \<and>
         \<not> isCodeInUse (activeSessions s) code \<and>
         js_get (activeSessions s') q =
           Some \<lparr>roomCode = code, quizId = q, players = [(c, playerInfo\<lparr>score := 0\<rparr>)],
                 adminToken = (if role playerInfo = Some ''admin'' then token else None),
                 cleanupTimeout = None\<rparr> \<and>
         (\<forall>q'. q' \<noteq> q \<longrightarrow> js_get (activeSessions s') q' = js_get (activeSessions s) q') \<and>
         timers s' = timers s)) \<and>
   (js_get (activeSessions s) q = None \<and> q \<notin> set prototype_names \<and>
    (\<forall>j<frames e. isCodeInUse (activeSessions s) (sample (draws e) (6 * j))) \<longrightarrow>
      request_session c q playerInfo token e s = Throws RangeError []) \<and>
   (js_get (activeSessionsByQuizId t) q = Some r \<longrightarrow>
      (\<exists>t'. request_session2 c q e t =
           Returns (t', [Emit (ToSocket c) (SessionCreated (Some (roomCode (objects t r))))]) \<and>
         activeSessionsByQuizId t' = activeSessionsByQuizId t \<and>
         activeSessionsByRoomCode t' = activeSessionsByRoomCode t \<and>
         next_ref t' = next_ref t \<and>
         objects t' r = (objects t r)\<lparr>cleanupTimeout := None\<rparr> \<and>
         (\<forall>r'. r' \<noteq> r \<longrightarrow> objects t' r' = objects t r') \<and>
         request_session2 c q e' t = request_session2 c q e t)) \<and>
   (js_get (activeSessionsByQuizId t) q = None \<and> q \<notin> set prototype_names \<and> k < frames e \<and>
    js_get (activeSessionsByRoomCode t) (sample (draws e) (6 * k)) = None \<longrightarrow>
      (\<exists>t' code.
         request_session2 c q e t = Returns (t', [Emit (ToSocket c) (SessionCreated (Some code))]) \<and>
         generateRoomCode2 e 0 (activeSessionsByRoomCode t) = Inr code \<and>
         js_get (activeSessionsByRoomCode t) code = None \<and>
         js_get (activeSessionsByQuizId t') q = Some (next_ref t) \<and>
         js_get (activeSessionsByRoomCode t') code = Some (next_ref t) \<and>
         objects t' (next_ref t) =
           \<lparr>roomCode = code, quizId = q, players = [], adminToken = None,
             cleanupTimeout = None\<rparr> \<and>
         (\<forall>q'. q' \<noteq> q \<longrightarrow>
            js_get (activeSessionsByQuizId t') q' = js_get (activeSessionsByQuizId t) q') \<and>
         (\<forall>rc. rc \<noteq> code \<longrightarrow>
            js_get (activeSessionsByRoomCode t') rc = js_get (activeSessionsByRoomCode t) rc) \<and>
         (\<forall>r. r \<noteq> next_ref t \<longrightarrow> objects t' r = objects t r))) \<and>
   (js_get (activeSessionsByQuizId t) q = None \<and> q \<notin> set prototype_names \<and>
    (\<forall>j<frames e. js_get (activeSessionsByRoomCode t) (sample (draws e) (6 * j)) \<noteq> None) \<longrightarrow>
      request_session2 c q e t = Throws RangeError [])"
  using request_session_existing [of s q session c playerInfo token e e']
    request_session_new [of s q k e c playerInfo token]
    request_session_overflow [of s q e c playerInfo token]
    request_session2_existing [of t q r c e e']
    request_session2_new [of t q k e c]
    request_session2_overflow [of t q e c]
  by blast

theorem request_session_find_or_create_witness:
  "js_get (activeSessions lobby) ''quiz42'' = Some (room_A [(''a'', alice)] None None) \<and>
   request_session ''b'' ''quiz42'' bob None tape_A lobby =
     Returns
       (lobby\<lparr>activeSessions := [(''quiz42'', room_A [(''a'', alice), (''b'', bob)] None None)]\<rparr>,
        [Join ''b'' ''AAAAAA'',
         Emit (ToSocket ''b'')
           (SessionReady ''quiz42'' ''AAAAAA'' [(''a'', alice), (''b'', bob)] ''b''),
         Emit (ToRoomExcept ''AAAAAA'' ''b'') (NewPlayer ''b'' bob),
         Emit (ToRoom ''AAAAAA'') (LeaderboardUpdate [alice, bob])]) \<and>
   js_get (activeSessions lobby) ''quiz7'' = None \<and>
   ''quiz7'' \<notin> set prototype_names \<and> 0 < frames tape_B \<and>
   \<not> isCodeInUse (activeSessions lobby) (sample (draws tape_B) (6 * 0)) \<and>
   request_session ''t'' ''quiz7'' teacher (Some ''secret'') tape_B lobby =
     Returns
       (lobby\<lparr>activeSessions :=
           [(''quiz42'', room_A [(''a'', alice)] None None),
            (''quiz7'', \<lparr>roomCode = ''BBBBBB'', quizId = ''quiz7'', players = [(''t'', teacher)],
               adminToken = Some ''secret'', cleanupTimeout = None\<rparr>)]\<rparr>,
        [Join ''t'' ''BBBBBB'',
         Emit (ToSocket ''t'') (SessionReady ''quiz7'' ''BBBBBB'' [(''t'', teacher)] ''t''),
         Emit (ToRoomExcept ''BBBBBB'' ''t'') (NewPlayer ''t'' teacher),
         Emit (ToRoom ''BBBBBB'') (LeaderboardUpdate [teacher])]) \<and>
   isCodeInUse (activeSessions lobby) ''AAAAAA'' \<and>
   request_session ''t'' ''quiz7'' teacher (Some ''secret'') tape_A lobby = Throws RangeError [] \<and>
   js_get (activeSessionsByQuizId lobby2) ''quiz42'' = Some 0 \<and>
   request_session2 ''b'' ''quiz42'' tape_A lobby2 =
     Returns (lobby2, [Emit (ToSocket ''b'') (SessionCreated (Some ''AAAAAA''))]) \<and>
   js_get (activeSessionsByQuizId lobby2) ''quiz7'' = None \<and>
   js_get (activeSessionsByRoomCode lobby2) (sample (draws tape_B) (6 * 0)) = None \<and>
   (case request_session2 ''t'' ''quiz7'' tape_B lobby2 of
      Returns (t', out) \<Rightarrow>
        view2 t' =
          ([(''quiz42'', 0), (''quiz7'', 1)], [(''AAAAAA'', 0), (''BBBBBB'', 1)], [],
           [room_A [(''a'', alice)] None None,
            \<lparr>roomCode = ''BBBBBB'', quizId = ''quiz7'', players = [], adminToken = None,
              cleanupTimeout = None\<rparr>]) \<and>
        out = [Emit (ToSocket ''t'') (SessionCreated (Some ''BBBBBB''))]
    | Throws err out \<Rightarrow> False) \<and>
   js_get (activeSessionsByRoomCode lobby2) ''AAAAAA'' = Some 0 \<and>
   request_session2 ''t'' ''quiz7'' tape_A lobby2 = Throws RangeError []"
proof -
  have 1: "js_get (activeSessions lobby) ''quiz42'' = Some (room_A [(''a'', alice)] None None)"
    by (simp add: js_get_def lobby_def)
  have 2: "request_session ''b'' ''quiz42'' bob None tape_A lobby =
     Returns
       (lobby\<lparr>activeSessions := [(''quiz42'', room_A [(''a'', alice), (''b'', bob)] None None)]\<rparr>,
        [Join ''b'' ''AAAAAA'',
         Emit (ToSocket ''b'')
           (SessionReady ''quiz42'' ''AAAAAA'' [(''a'', alice), (''b'', bob)] ''b''),
         Emit (ToRoomExcept ''AAAAAA'' ''b'') (NewPlayer ''b'' bob),
         Emit (ToRoom ''AAAAAA'') (LeaderboardUpdate [alice, bob])])"
    by (simp add: handler_eval obj_eval scenario_eval)
  have 3: "js_get (activeSessions lobby) ''quiz7'' = None"
    by (simp add: js_get_def lobby_def)
  have p: "''quiz7'' \<notin> set prototype_names" by (simp add: prototype_names_def)
  have f: "0 < frames tape_B" by (simp add: frames_tape)
  have 4: "\<not> isCodeInUse (activeSessions lobby) (sample (draws tape_B) (6 * 0))"
    by (simp add: handler_eval obj_eval scenario_eval)
  have 5: "request_session ''t'' ''quiz7'' teacher (Some ''secret'') tape_B lobby =
     Returns
       (lobby\<lparr>activeSessions :=
           [(''quiz42'', room_A [(''a'', alice)] None None),
            (''quiz7'', \<lparr>roomCode = ''BBBBBB'', quizId = ''quiz7'', players = [(''t'', teacher)],
               adminToken = Some ''secret'', cleanupTimeout = None\<rparr>)]\<rparr>,
        [Join ''t'' ''BBBBBB'',
         Emit (ToSocket ''t'') (SessionReady ''quiz7'' ''BBBBBB'' [(''t'', teacher)] ''t''),
         Emit (ToRoomExcept ''BBBBBB'' ''t'') (NewPlayer ''t'' teacher),
         Emit (ToRoom ''BBBBBB'') (LeaderboardUpdate [teacher])])"
    by (simp add: handler_eval obj_eval scenario_eval)
  have 6: "\<forall>j<frames tape_A. isCodeInUse (activeSessions lobby) (sample (draws tape_A) (6 * j))"
    by (simp add: sample_A isCodeInUse_def js_values_def lobby_def room_A_def)
  have 7: "js_get (activeSessionsByQuizId lobby2) ''quiz42'' = Some 0"
    by (simp add: js_get_def lobby2_def)
  have 8: "request_session2 ''b'' ''quiz42'' tape_A lobby2 =
     Returns (lobby2, [Emit (ToSocket ''b'') (SessionCreated (Some ''AAAAAA''))])"
    by (simp add: handler2_eval obj_eval scenario_eval lobby2_def)
  have 9: "js_get (activeSessionsByQuizId lobby2) ''quiz7'' = None"
    by (simp add: js_get_def lobby2_def)
  have 10: "js_get (activeSessionsByRoomCode lobby2) (sample (draws tape_B) (6 * 0)) = None"
    by (simp add: js_get_def lobby2_def sample_B)
  have 11: "(case request_session2 ''t'' ''quiz7'' tape_B lobby2 of
      Returns (t', out) \<Rightarrow>
        view2 t' =
          ([(''quiz42'', 0), (''quiz7'', 1)], [(''AAAAAA'', 0), (''BBBBBB'', 1)], [],
           [room_A [(''a'', alice)] None None,
            \<lparr>roomCode = ''BBBBBB'', quizId = ''quiz7'', players = [], adminToken = None,
              cleanupTimeout = None\<rparr>]) \<and>
        out = [Emit (ToSocket ''t'') (SessionCreated (Some ''BBBBBB''))]
    | Throws err out \<Rightarrow> False)"
    by (simp add: handler2_eval obj_eval scenario_eval lobby2_def)
  have 12: "\<forall>j<frames tape_A.
      js_get (activeSessionsByRoomCode lobby2) (sample (draws tape_A) (6 * j)) \<noteq> None"
    by (simp add: sample_A js_get_def lobby2_def)
  have 13: "isCodeInUse (activeSessions lobby) ''AAAAAA''"
    by (simp add: isCodeInUse_def js_values_def lobby_def room_A_def)
  have 14: "js_get (activeSessionsByRoomCode lobby2) ''AAAAAA'' = Some 0"
    by (simp add: js_get_def lobby2_def)
  from request_session_find_or_create
      [where s = lobby and q = "''quiz42''" and session = "room_A [(''a'', alice)] None None"
        and c = "''b''" and playerInfo = bob and token = None and e = tape_A and t = lobby2
        and r = 0]
    request_session_find_or_create
      [where s = lobby and q = "''quiz7''" and c = "''t''" and playerInfo = teacher
        and token = "Some ''secret''" and e = tape_B and t = lobby2 and k = 0]
    request_session_find_or_create
      [where s = lobby and q = "''quiz7''" and c = "''t''" and playerInfo = teacher
        and token = "Some ''secret''" and e = tape_A and t = lobby2]
    1 2 3 p f 4 5 6 7 8 9 10 11 12 13 14
  show ?thesis by simp
qed

text \<open>
  Claim C10: when a connection that is already a player of the session asks for the same
  quiz again, its entry becomes the new \<^verbatim>\<open>playerInfo\<close> with score 0, whatever the old entry
  was; the roster keeps its keys, the other entries stay, and the handler answers as for
  any join (\<^verbatim>\<open>session_ready\<close>, \<^verbatim>\<open>new_player\<close>, \<^verbatim>\<open>leaderboard_update\<close>), not with an error.
\<close>

theorem request_session_again_replaces:
  assumes "js_get (activeSessions s) q = Some session"
    and "js_get (players session) c = Some old"
  shows "\<exists>s' session'.
     request_session c q playerInfo token rnd s =
       Returns (s', [Join c (roomCode session),
                  Emit (ToSocket c) (SessionReady q (roomCode session) (players session') c),
                  Emit (ToRoomExcept (roomCode session) c) (NewPlayer c (playerInfo\<lparr>score := 0\<rparr>)),
                  Emit (ToRoom (roomCode session))
                    (LeaderboardUpdate (js_values (players session')))]) \<and>
     js_get (activeSessions s') q = Some session' \<and>
     js_get (players session') c = Some (playerInfo\<lparr>score := 0\<rparr>) \<and>
     map fst (players session') = map fst (players session) \<and>
     (\<forall>c'. c' \<noteq> c \<longrightarrow> js_get (players session') c' = js_get (players session) c')"
  using assms
  by (simp add: request_session_def js_lookup_Own Let_def js_get_js_set keys_js_set_present)

theorem request_session_again_replaces_witness:
  "js_get (activeSessions duo) ''quiz42'' =
     Some (room_A [(''a'', alice\<lparr>score := 3\<rparr>), (''b'', bob\<lparr>score := 4\<rparr>)] None None) \<and>
   js_get [(''a'', alice\<lparr>score := 3\<rparr>), (''b'', bob\<lparr>score := 4\<rparr>)] ''b'' = Some (bob\<lparr>score := 4\<rparr>) \<and>
   request_session ''b'' ''quiz42'' (bob\<lparr>x := 0, y := 0, score := 8\<rparr>) None tape_A duo =
     Returns
       (duo\<lparr>activeSessions :=
           [(''quiz42'', room_A [(''a'', alice\<lparr>score := 3\<rparr>), (''b'', bob\<lparr>x := 0, y := 0\<rparr>)] None None)]\<rparr>,
        [Join ''b'' ''AAAAAA'',
         Emit (ToSocket ''b'')
           (SessionReady ''quiz42'' ''AAAAAA''
              [(''a'', alice\<lparr>score := 3\<rparr>), (''b'', bob\<lparr>x := 0, y := 0\<rparr>)] ''b''),
         Emit (ToRoomExcept ''AAAAAA'' ''b'') (NewPlayer ''b'' (bob\<lparr>x := 0, y := 0\<rparr>)),
         Emit (ToRoom ''AAAAAA'')
           (LeaderboardUpdate [alice\<lparr>score := 3\<rparr>, bob\<lparr>x := 0, y := 0\<rparr>])])"
proof -
  have 1: "js_get (activeSessions duo) ''quiz42'' =
     Some (room_A [(''a'', alice\<lparr>score := 3\<rparr>), (''b'', bob\<lparr>score := 4\<rparr>)] None None)"
    by (simp add: js_get_def duo_def)
  have 2: "js_get (players (room_A [(''a'', alice\<lparr>score := 3\<rparr>), (''b'', bob\<lparr>score := 4\<rparr>)] None None))
      ''b'' = Some (bob\<lparr>score := 4\<rparr>)"
    by (simp add: js_get_def room_A_def)
  have 3: "request_session ''b'' ''quiz42'' (bob\<lparr>x := 0, y := 0, score := 8\<rparr>) None tape_A duo =
     Returns
       (duo\<lparr>activeSessions :=
           [(''quiz42'', room_A [(''a'', alice\<lparr>score := 3\<rparr>), (''b'', bob\<lparr>x := 0, y := 0\<rparr>)] None None)]\<rparr>,
        [Join ''b'' ''AAAAAA'',
         Emit (ToSocket ''b'')
           (SessionReady ''quiz42'' ''AAAAAA''
              [(''a'', alice\<lparr>score := 3\<rparr>), (''b'', bob\<lparr>x := 0, y := 0\<rparr>)] ''b''),
         Emit (ToRoomExcept ''AAAAAA'' ''b'') (NewPlayer ''b'' (bob\<lparr>x := 0, y := 0\<rparr>)),
         Emit (ToRoom ''AAAAAA'')
           (LeaderboardUpdate [alice\<lparr>score := 3\<rparr>, bob\<lparr>x := 0, y := 0\<rparr>])])"
    by (simp add: handler_eval obj_eval scenario_eval duo_def)
  from request_session_again_replaces [OF 1 2, of "bob\<lparr>x := 0, y := 0, score := 8\<rparr>" None tape_A] 1 2 3
  show ?thesis by (simp add: room_A_def js_get_def)
qed

section \<open>Claims C8 and C9: movement and score\<close>

text \<open>
  Claim C8: a \<^verbatim>\<open>player_movement\<close> or \<^verbatim>\<open>update_score\<close> whose room code resolves to no session,
  or whose sender is not a player of the session it resolves to, changes nothing and emits
  nothing; when the sender is a player, \<^verbatim>\<open>update_score\<close> stores the given score in place of
  the old one, whatever the old one was.
\<close>

theorem absent_sender_is_ignored:
  "((find_room (activeSessions s) rc = None \<or>
     (\<exists>q session. find_room (activeSessions s) rc = Some (q, session) \<and>
        js_get (players session) c = None)) \<longrightarrow>
    player_movement c rc px py s = (s, []) \<and> update_score c rc sc s = (s, [])) \<and>
   (find_room (activeSessions s) rc = Some (q, session) \<and>
    js_get (players session) c = Some p \<longrightarrow>
    (\<exists>session'. js_get (activeSessions (fst (update_score c rc sc s))) q = Some session' \<and>
       js_get (players session') c = Some (p\<lparr>score := sc\<rparr>)))"
  by (auto simp: player_movement_def update_score_def Let_def js_get_js_set)

theorem absent_sender_is_ignored_witness:
  "find_room (activeSessions lobby) ''ZZZZZZ'' = None \<and>
   player_movement ''a'' ''ZZZZZZ'' 3 4 lobby = (lobby, []) \<and>
   update_score ''a'' ''ZZZZZZ'' 10 lobby = (lobby, []) \<and>
   find_room (activeSessions lobby) ''AAAAAA'' = Some (''quiz42'', room_A [(''a'', alice)] None None) \<and>
   js_get [(''a'', alice)] ''b'' = None \<and>
   player_movement ''b'' ''AAAAAA'' 3 4 lobby = (lobby, []) \<and>
   update_score ''b'' ''AAAAAA'' 10 lobby = (lobby, []) \<and>
   js_get [(''a'', alice)] ''a'' = Some alice \<and>
   js_get (activeSessions (fst (update_score ''a'' ''AAAAAA'' 10 lobby))) ''quiz42'' =
     Some (room_A [(''a'', alice\<lparr>score := 10\<rparr>)] None None)"
proof -
  have 1: "find_room (activeSessions lobby) ''ZZZZZZ'' = None"
    by (simp add: find_room_def lobby_def room_A_def)
  have 2: "find_room (activeSessions lobby) ''AAAAAA'' =
      Some (''quiz42'', room_A [(''a'', alice)] None None)"
    by (simp add: find_room_def lobby_def room_A_def)
  have 3: "js_get (players (room_A [(''a'', alice)] None None)) ''b'' = None"
    by (simp add: js_get_def room_A_def)
  have 4: "js_get (players (room_A [(''a'', alice)] None None)) ''a'' = Some alice"
    by (simp add: js_get_def room_A_def)
  have 5: "js_get (activeSessions (fst (update_score ''a'' ''AAAAAA'' 10 lobby))) ''quiz42'' =
     Some (room_A [(''a'', alice\<lparr>score := 10\<rparr>)] None None)"
    by (simp add: handler_eval obj_eval scenario_eval)
  from absent_sender_is_ignored [where s = lobby and rc = "''ZZZZZZ''" and c = "''a''"
      and px = 3 and py = 4 and sc = 10] 1
    absent_sender_is_ignored [where s = lobby and rc = "''AAAAAA''" and c = "''b''"
      and px = 3 and py = 4 and sc = 10] 2 3
    absent_sender_is_ignored [where s = lobby and rc = "''AAAAAA''" and c = "''a''"
      and q = "''quiz42''" and session = "room_A [(''a'', alice)] None None" and p = alice
      and sc = 10] 4 5
  show ?thesis by (simp add: js_get_def room_A_def)
qed

text \<open>
  Claim C9: after an \<^verbatim>\<open>update_score\<close> by a player, the leaderboard that is broadcast to the
  room is the roster of before with the new score in the sender's entry: every other
  entry, and every other field of the sender's entry, is as it was. The same holds for
  the stored roster. (The keys of an object are distinct; \<open>reachable_players_distinct\<close>
  shows it for the rosters of every reachable state.)
\<close>

theorem update_score_leaderboard:
  assumes "find_room (activeSessions s) rc = Some (q, session)"
    and "js_get (players session) c = Some p"
    and "distinct (map fst (players session))"
  shows "snd (update_score c rc sc s) =
      [Emit (ToRoom rc)
         (LeaderboardUpdate
            (map (\<lambda>e. if fst e = c then (snd e)\<lparr>score := sc\<rparr> else snd e) (players session)))] \<and>
    js_get (activeSessions (fst (update_score c rc sc s))) q =
      Some (session\<lparr>players :=
              map (\<lambda>e. if fst e = c then (c, (snd e)\<lparr>score := sc\<rparr>) else e) (players session)\<rparr>)"
proof -
  have "js_set c (p\<lparr>score := sc\<rparr>) (players session) =
      map (\<lambda>e. if fst e = c then (c, (snd e)\<lparr>score := sc\<rparr>) else e) (players session)"
    using assms(3) assms(2) by (rule js_set_present_distinct)
  with assms(1,2) show ?thesis
    by (simp add: update_score_def Let_def js_get_js_set js_values_def comp_def if_distrib
        cong: if_cong)
qed

theorem update_score_leaderboard_witness:
  "find_room (activeSessions duo) ''AAAAAA'' =
     Some (''quiz42'', room_A [(''a'', alice\<lparr>score := 3\<rparr>), (''b'', bob\<lparr>score := 4\<rparr>)] None None) \<and>
   js_get [(''a'', alice\<lparr>score := 3\<rparr>), (''b'', bob\<lparr>score := 4\<rparr>)] ''b'' = Some (bob\<lparr>score := 4\<rparr>) \<and>
   distinct (map fst [(''a'', alice\<lparr>score := 3\<rparr>), (''b'', bob\<lparr>score := 4\<rparr>)]) \<and>
   snd (update_score ''b'' ''AAAAAA'' 9 duo) =
     [Emit (ToRoom ''AAAAAA'') (LeaderboardUpdate [alice\<lparr>score := 3\<rparr>, bob\<lparr>score := 9\<rparr>])]"
proof -
  have 1: "find_room (activeSessions duo) ''AAAAAA'' =
     Some (''quiz42'', room_A [(''a'', alice\<lparr>score := 3\<rparr>), (''b'', bob\<lparr>score := 4\<rparr>)] None None)"
    by (simp add: find_room_def duo_def room_A_def)
  have 2: "js_get (players (room_A [(''a'', alice\<lparr>score := 3\<rparr>), (''b'', bob\<lparr>score := 4\<rparr>)] None None))
      ''b'' = Some (bob\<lparr>score := 4\<rparr>)"
    by (simp add: js_get_def room_A_def)
  have 3: "distinct (map fst (players
      (room_A [(''a'', alice\<lparr>score := 3\<rparr>), (''b'', bob\<lparr>score := 4\<rparr>)] None None)))"
    by (simp add: room_A_def)
  from update_score_leaderboard [OF 1 2 3, of 9] 1 2 3
  show ?thesis by (simp add: room_A_def js_get_def)
qed

section \<open>Claims C1 and C4: finalization\<close>

text \<open>
  Claim C1: a finalize request for a session that has no admin token (never set, or
  cleared when the admin disconnected) is refused as unauthorized, without a call of the
  results service and without a change of the registry.

  The code compares \<^verbatim>\<open>session.adminToken === token\<close>. When the session has no admin token
  and the request carries no token, both sides are \<^verbatim>\<open>undefined\<close> and the comparison
  succeeds. The state \<open>lobby\<close> is reached both by a session that a player created and by
  a session whose admin left; there, a request without a token from a connection that is
  not even a player posts the results with the bearer token \<^verbatim>\<open>undefined\<close> and, when the
  service accepts them, ends the quiz and deletes the session.
\<close>

theorem admin_end_quiz_without_tokens:
  "run [RequestSession ''a'' ''quiz42'' alice None tape_A] init = Some lobby \<and>
   run [RequestSession ''t'' ''quiz42'' teacher (Some ''secret'') tape_A,
        RequestSession ''a'' ''quiz42'' alice None tape_A,
        Disconnect ''t''] init = Some lobby \<and>
   admin_end_quiz ''b'' ''AAAAAA'' None Ok lobby =
     (init, [Fetch ''quiz42'' [alice] None, Emit (ToRoom ''AAAAAA'') QuizEnded])"
  by (simp add: handler_eval obj_eval scenario_eval)

text \<open>What the handler does get right: a request whose token differs from the admin token of
  the session, or whose room code resolves to no session, is refused, and nothing changes.\<close>

lemma admin_end_quiz_rejects:
  assumes "find_room (activeSessions s) rc = None \<or>
    (\<exists>q session. find_room (activeSessions s) rc = Some (q, session) \<and>
       adminToken session \<noteq> token)"
  shows "admin_end_quiz c rc token resp s =
    (s, [Emit (ToSocket c) (ErrorEndingQuiz ''Unauthorized or invalid session.'' None)])"
  using assms by (auto simp: admin_end_quiz_def)

text \<open>
  Claim C4: an authorized finalization whose results are accepted broadcasts
  \<^verbatim>\<open>quiz_ended\<close> once and destroys the session, cancelling a pending eviction timer; one
  whose results are not accepted reports to the caller only and changes nothing.

  \<^verbatim>\<open>admin_end_quiz\<close> deletes the session and never calls \<^verbatim>\<open>clearTimeout\<close>. In the run
  below the admin's connection asks for the session again as a player and leaves, so the
  session is empty, keeps its admin token and has a pending timer. The finalization
  deletes the session and leaves the timer pending; a new session of the same quiz,
  created afterwards, is deleted by that timer when the grace period of the old session
  ends, one millisecond after it was still there.
\<close>

theorem admin_end_quiz_leaves_timer:
  "run [RequestSession ''t'' ''quiz42'' teacher (Some ''secret'') tape_A,
        RequestSession ''t'' ''quiz42'' alice None tape_A,
        Disconnect ''t'', Elapse 1000] init =
     Some \<lparr>activeSessions = [(''quiz42'', room_A [] (Some ''secret'') (Some 0))],
           timers = [\<lparr>handle = 0, due = 60000, target = ''quiz42''\<rparr>],
           clock = 1000, next_handle = 1\<rparr> \<and>
   admin_end_quiz ''b'' ''AAAAAA'' (Some ''secret'') Ok
     \<lparr>activeSessions = [(''quiz42'', room_A [] (Some ''secret'') (Some 0))],
      timers = [\<lparr>handle = 0, due = 60000, target = ''quiz42''\<rparr>],
      clock = 1000, next_handle = 1\<rparr> =
     (\<lparr>activeSessions = [],
       timers = [\<lparr>handle = 0, due = 60000, target = ''quiz42''\<rparr>],
       clock = 1000, next_handle = 1\<rparr>,
      [Fetch ''quiz42'' [] (Some ''secret''), Emit (ToRoom ''AAAAAA'') QuizEnded]) \<and>
   run [RequestSession ''c'' ''quiz42'' bob None tape_B, Elapse 58999]
     \<lparr>activeSessions = [],
      timers = [\<lparr>handle = 0, due = 60000, target = ''quiz42''\<rparr>],
      clock = 1000, next_handle = 1\<rparr> =
     Some \<lparr>activeSessions =
             [(''quiz42'', \<lparr>roomCode = ''BBBBBB'', quizId = ''quiz42'',
                 players = [(''c'', bob)], adminToken = None, cleanupTimeout = None\<rparr>)],
           timers = [\<lparr>handle = 0, due = 60000, target = ''quiz42''\<rparr>],
           clock = 59999, next_handle = 1\<rparr> \<and>
   run [RequestSession ''c'' ''quiz42'' bob None tape_B, Elapse 59000]
     \<lparr>activeSessions = [],
      timers = [\<lparr>handle = 0, due = 60000, target = ''quiz42''\<rparr>],
      clock = 1000, next_handle = 1\<rparr> =
     Some \<lparr>activeSessions = [], timers = [], clock = 60000, next_handle = 1\<rparr>"
  by (simp add: handler_eval obj_eval scenario_eval)

text \<open>The rest of claim C4 holds: a failure is reported to the caller only and leaves the
  state as it is; a success deletes the session, which can then be found neither by its
  quiz id nor, in a registry whose keys are the quiz ids and whose room codes are
  distinct, by its room code. The timers stay as they are in both cases.\<close>

lemma admin_end_quiz_failure:
  assumes "find_room (activeSessions s) rc = Some (q, session)"
    and "adminToken session = token" and "resp \<noteq> Ok"
  shows "\<exists>message details.
    admin_end_quiz c rc token resp s =
      (s, [Fetch (quizId session) (js_values (players session)) token,
           Emit (ToSocket c) (ErrorEndingQuiz message details)])"
  using assms by (cases resp) (simp_all add: admin_end_quiz_def)

lemma admin_end_quiz_success:
  assumes "find_room (activeSessions s) rc = Some (q, session)"
    and "adminToken session = token"
  shows "admin_end_quiz c rc token Ok s =
      (s\<lparr>activeSessions := js_delete (quizId session) (activeSessions s)\<rparr>,
       [Fetch (quizId session) (js_values (players session)) token,
        Emit (ToRoom rc) QuizEnded])"
    and "js_get (activeSessions (fst (admin_end_quiz c rc token Ok s))) (quizId session) = None"
    and "timers (fst (admin_end_quiz c rc token Ok s)) = timers s"
  using assms by (simp_all add: admin_end_quiz_def js_get_js_delete)

lemma admin_end_quiz_unreachable_by_room:
  assumes "find_room (activeSessions s) rc = Some (q, session)"
    and "adminToken session = token"
    and keys: "\<forall>e\<in>set (activeSessions s). quizId (snd e) = fst e"
    and codes: "distinct (map (\<lambda>e. roomCode (snd e)) (activeSessions s))"
  shows "find_room (activeSessions (fst (admin_end_quiz c rc token Ok s))) rc = None"
proof -
  from find_room_Some [OF assms(1)] have m: "(q, session) \<in> set (activeSessions s)"
    and rc: "roomCode session = rc" by simp_all
  from keys m have q: "quizId session = q" by auto
  have inj: "inj_on (\<lambda>e. roomCode (snd e)) (set (activeSessions s))"
    using codes by (simp add: distinct_map)
  have "e = (q, session)" if "e \<in> set (activeSessions s)" "roomCode (snd e) = rc" for e
  proof (rule inj_onD [OF inj _ that(1) m])
    show "roomCode (snd e) = roomCode (snd (q, session))" using that(2) rc by simp
  qed
  then have "\<forall>e\<in>set (js_delete q (activeSessions s)). roomCode (snd e) \<noteq> rc"
    by (auto simp: js_delete_def)
  with assms(1,2) q show ?thesis
    by (simp add: admin_end_quiz_def find_room_None_iff)
qed

lemma admin_end_quiz_destroys:
  assumes "reachable s" and "find_room (activeSessions s) rc = Some (q, session)"
    and "adminToken session = token"
  shows "js_get (activeSessions (fst (admin_end_quiz c rc token Ok s))) q = None"
    and "find_room (activeSessions (fst (admin_end_quiz c rc token Ok s))) rc = None"
proof -
  from reachable_wf [OF assms(1)] have wf: "wf_reg (activeSessions s)" .
  from find_room_Some [OF assms(2)] wf have "quizId session = q"
    by (auto simp: wf_reg_def list_all_iff)
  with admin_end_quiz_success(2) [OF assms(2,3)]
  show "js_get (activeSessions (fst (admin_end_quiz c rc token Ok s))) q = None" by simp
  from wf show "find_room (activeSessions (fst (admin_end_quiz c rc token Ok s))) rc = None"
    by (intro admin_end_quiz_unreachable_by_room [OF assms(2,3)])
      (auto simp: wf_reg_def list_all_iff)
qed

section \<open>Claim C5: the cleanup timer\<close>

text \<open>
  Claim C5: for every session, the leave of the last player arms a 60-second eviction
  timer, a join before it fires cancels it, and the timer destroys the session otherwise.

  \<^verbatim>\<open>disconnect\<close> arms the timer under \<^verbatim>\<open>if (quizIdToClean)\<close>, which is false for the empty
  string as it is for \<^verbatim>\<open>null\<close>. A session whose quiz id is the empty string gets no timer
  when its last player leaves and stays in the registry without players for good; the
  same run with the quiz id \<^verbatim>\<open>quiz42\<close> arms the timer.
\<close>

theorem empty_quiz_id_never_evicted:
  "run [RequestSession ''a'' '''' alice None tape_A, Disconnect ''a''] init =
     Some \<lparr>activeSessions =
             [('''', \<lparr>roomCode = ''AAAAAA'', quizId = '''', players = [], adminToken = None,
                 cleanupTimeout = None\<rparr>)],
           timers = [], clock = 0, next_handle = 0\<rparr> \<and>
   run [RequestSession ''a'' '''' alice None tape_A, Disconnect ''a'', Elapse 3600000] init =
     Some \<lparr>activeSessions =
             [('''', \<lparr>roomCode = ''AAAAAA'', quizId = '''', players = [], adminToken = None,
                 cleanupTimeout = None\<rparr>)],
           timers = [], clock = 3600000, next_handle = 0\<rparr> \<and>
   run [RequestSession ''a'' ''quiz42'' alice None tape_A, Disconnect ''a''] init =
     Some \<lparr>activeSessions = [(''quiz42'', room_A [] None (Some 0))],
           timers = [\<lparr>handle = 0, due = 60000, target = ''quiz42''\<rparr>],
           clock = 0, next_handle = 1\<rparr>"
  by (simp add: handler_eval obj_eval scenario_eval)

text \<open>For a quiz id that is not empty the timer is armed, cancelled and fired as claimed:
  first what each handler does, then what follows in the states \<^verbatim>\<open>part_000\<close> reaches.\<close>

lemma js_get_fire_timers:
  "js_get (fire_timers ts reg) q = (if q \<in> target ` set ts then None else js_get reg q)"
  by (induction ts arbitrary: reg) (auto simp: js_get_js_delete)

lemma disconnect_arms:
  assumes "find_player (activeSessions s) c = Some (q, session)"
    and "js_delete c (players session) = []" and "q \<noteq> []"
  shows "timers (fst (disconnect c s)) =
      timers s @ [\<lparr>handle = next_handle s, due = clock s + 60000, target = q\<rparr>]"
    and "\<exists>session'. js_get (activeSessions (fst (disconnect c s))) q = Some session' \<and>
      players session' = [] \<and> cleanupTimeout session' = Some (next_handle s) \<and>
      roomCode session' = roomCode session"
  using assms by (simp_all add: disconnect_def Let_def truthy_def js_get_js_set)

lemma request_session_cancels:
  assumes "js_get (activeSessions s) q = Some session"
    and "cleanupTimeout session = Some h"
  shows "\<exists>s' out. request_session c q playerInfo token e s = Returns (s', out) \<and>
      timers s' = clearTimeout h (timers s) \<and> h \<notin> handle ` set (timers s')"
  using assms js_lookup_Own [OF assms(1)]
  by (auto simp: request_session_def Let_def clearTimeout_def)

lemma elapse_fires:
  assumes "t \<in> set (timers s)" and "due t \<le> clock s + d"
  shows "js_get (activeSessions (elapse d s)) (target t) = None"
    and "t \<notin> set (timers (elapse d s))"
  using assms by (auto simp: elapse_def Let_def js_get_fire_timers)

lemma elapse_keeps:
  assumes "\<forall>t\<in>set (timers s). target t = q \<longrightarrow> clock s + d < due t"
  shows "js_get (activeSessions (elapse d s)) q = js_get (activeSessions s) q"
  using assms by (auto simp: elapse_def Let_def js_get_fire_timers)

text \<open>The correspondence of timers and handles is kept by every handler of \<^verbatim>\<open>part_000\<close>.\<close>

lemma same_handle:
  assumes "distinct (map handle ts)" "t \<in> set ts" "t' \<in> set ts" "handle t = handle t'"
  shows "t = t'"
proof -
  from assms(1) have "inj_on handle (set ts)" by (simp add: distinct_map)
  from inj_onD [OF this assms(4,2,3)] show ?thesis .
qed

lemma tinv_no_timer:
  assumes "tinv s" and "\<forall>session. js_get (activeSessions s) q = Some session \<longrightarrow>
      cleanupTimeout session = None"
  shows "\<forall>t\<in>set (timers s). target t \<noteq> q"
  using assms unfolding tinv_def by fastforce

lemma tinv_timers_of:
  assumes "tinv s" and "js_get (activeSessions s) q = Some session"
    and "cleanupTimeout session = Some h" and "t \<in> set (timers s)"
  shows "target t = q \<longleftrightarrow> handle t = h"
proof
  assume "target t = q"
  with assms show "handle t = h" unfolding tinv_def by fastforce
next
  assume h: "handle t = h"
  from assms(1-3) obtain t' where t': "t' \<in> set (timers s)" "handle t' = h" "target t' = q"
    unfolding tinv_def by blast
  from assms(1) have "distinct (map handle (timers s))" by (simp add: tinv_def)
  from same_handle [OF this assms(4) t'(1)] h t'(2) have "t = t'" by simp
  with t'(3) show "target t = q" by simp
qed

lemma tinv_update:
  assumes "tinv s"
    and "\<forall>session. js_get (activeSessions s) q = Some session \<longrightarrow> cleanupTimeout session = None"
    and "cleanupTimeout session' = None"
  shows "tinv (s\<lparr>activeSessions := js_set q session' (activeSessions s)\<rparr>)"
proof -
  from tinv_no_timer [OF assms(1,2)] have nt: "\<forall>t\<in>set (timers s). target t \<noteq> q" .
  from assms(1) have d: "distinct (map fst (js_set q session' (activeSessions s)))"
    by (simp add: tinv_def distinct_js_set)
  show ?thesis
    unfolding tinv_def
  proof (intro conjI ballI allI impI)
    show "distinct (map fst (activeSessions (s\<lparr>activeSessions := js_set q session' (activeSessions s)\<rparr>)))"
      using d by simp
    show "distinct (map handle (timers (s\<lparr>activeSessions := js_set q session' (activeSessions s)\<rparr>)))"
      using assms(1) by (simp add: tinv_def)
  next
    fix t assume "t \<in> set (timers (s\<lparr>activeSessions := js_set q session' (activeSessions s)\<rparr>))"
    then have t: "t \<in> set (timers s)" by simp
    with nt have "target t \<noteq> q" by blast
    with assms(1) t
    show "handle t < next_handle (s\<lparr>activeSessions := js_set q session' (activeSessions s)\<rparr>)"
      "clock (s\<lparr>activeSessions := js_set q session' (activeSessions s)\<rparr>) < due t"
      "due t \<le> clock (s\<lparr>activeSessions := js_set q session' (activeSessions s)\<rparr>) + 60000"
      "\<exists>session. js_get (activeSessions (s\<lparr>activeSessions := js_set q session' (activeSessions s)\<rparr>)) (target t) = Some session \<and>
           cleanupTimeout session = Some (handle t)"
      by (simp_all add: tinv_def js_get_js_set)
  next
    fix q' session h
    assume a: "js_get (activeSessions (s\<lparr>activeSessions := js_set q session' (activeSessions s)\<rparr>)) q' = Some session \<and>
       cleanupTimeout session = Some h"
    with assms(3) have "q' \<noteq> q" by (auto simp: js_get_js_set split: if_splits)
    with a have "js_get (activeSessions s) q' = Some session" by (simp add: js_get_js_set)
    with a assms(1)
    show "players session = []"
      "\<exists>t\<in>set (timers (s\<lparr>activeSessions := js_set q session' (activeSessions s)\<rparr>)). handle t = h \<and> target t = q'"
      unfolding tinv_def by auto
  qed
qed

lemma tinv_cancel:
  assumes "tinv s" and "js_get (activeSessions s) q = Some session"
    and "cleanupTimeout session = Some h" and "cleanupTimeout session' = None"
  shows "tinv (s\<lparr>activeSessions := js_set q session' (activeSessions s),
                timers := clearTimeout h (timers s)\<rparr>)"
    (is "tinv ?s'")
proof -
  have of_q: "target t = q \<longleftrightarrow> handle t = h" if "t \<in> set (timers s)" for t
    using tinv_timers_of [OF assms(1-3) that] .
  have ts': "set (timers ?s') = {t \<in> set (timers s). target t \<noteq> q}"
    using of_q by (auto simp: clearTimeout_def)
  show ?thesis
    unfolding tinv_def
  proof (intro conjI ballI allI impI)
    show "distinct (map fst (activeSessions ?s'))"
      using assms(1) by (simp add: tinv_def distinct_js_set)
    show "distinct (map handle (timers ?s'))"
      using assms(1) by (simp add: tinv_def clearTimeout_def distinct_map_filter)
  next
    fix t assume "t \<in> set (timers ?s')"
    with ts' have t: "t \<in> set (timers s)" "target t \<noteq> q" by auto
    with assms(1)
    show "handle t < next_handle ?s'" "clock ?s' < due t" "due t \<le> clock ?s' + 60000"
      "\<exists>session. js_get (activeSessions ?s') (target t) = Some session \<and>
           cleanupTimeout session = Some (handle t)"
      by (simp_all add: tinv_def js_get_js_set)
  next
    fix q' session'' h'
    assume a: "js_get (activeSessions ?s') q' = Some session'' \<and> cleanupTimeout session'' = Some h'"
    with assms(4) have ne: "q' \<noteq> q" by (auto simp: js_get_js_set split: if_splits)
    with a have g: "js_get (activeSessions s) q' = Some session''" by (simp add: js_get_js_set)
    with a assms(1) obtain t where t: "t \<in> set (timers s)" "handle t = h'" "target t = q'"
      and e: "players session'' = []"
      unfolding tinv_def by blast
    from t ne ts' have "t \<in> set (timers ?s')" by simp
    with t e show "players session'' = []"
      "\<exists>t\<in>set (timers ?s'). handle t = h' \<and> target t = q'" by auto
  qed
qed

lemma tinv_arm:
  assumes "tinv s" and "js_get (activeSessions s) q = Some session"
    and "cleanupTimeout session = None"
    and "players session' = []" and "cleanupTimeout session' = Some (next_handle s)"
  shows "tinv (s\<lparr>activeSessions := js_set q session' (activeSessions s),
                timers := timers s @ [\<lparr>handle = next_handle s, due = clock s + 60000, target = q\<rparr>],
                next_handle := Suc (next_handle s)\<rparr>)"
    (is "tinv ?s'")
proof -
  have nt: "\<forall>t\<in>set (timers s). target t \<noteq> q"
    using assms(1,2,3) by (intro tinv_no_timer) auto
  have lt: "\<forall>t\<in>set (timers s). handle t < next_handle s"
    using assms(1) by (simp add: tinv_def)
  let ?new = "\<lparr>handle = next_handle s, due = clock s + 60000, target = q\<rparr>"
  show ?thesis
    unfolding tinv_def
  proof (intro conjI ballI allI impI)
    show "distinct (map fst (activeSessions ?s'))"
      using assms(1) by (simp add: tinv_def distinct_js_set)
    show "distinct (map handle (timers ?s'))"
      using assms(1) lt by (auto simp: tinv_def)
  next
    fix t assume "t \<in> set (timers ?s')"
    then have c: "t \<in> set (timers s) \<or> t = ?new" by auto
    show "handle t < next_handle ?s'" using c assms(1) by (auto simp: tinv_def)
    show "clock ?s' < due t" using c assms(1) by (auto simp: tinv_def)
    show "due t \<le> clock ?s' + 60000" using c assms(1) by (auto simp: tinv_def)
    show "\<exists>session. js_get (activeSessions ?s') (target t) = Some session \<and>
           cleanupTimeout session = Some (handle t)"
      using c assms(1,5) nt by (auto simp: tinv_def js_get_js_set)
  next
    fix q' session'' h'
    assume a: "js_get (activeSessions ?s') q' = Some session'' \<and> cleanupTimeout session'' = Some h'"
    show "players session'' = []"
      "\<exists>t\<in>set (timers ?s'). handle t = h' \<and> target t = q'"
    proof -
      show "players session'' = []"
        using a assms(1,4) unfolding tinv_def
        by (cases "q' = q") (auto simp: js_get_js_set)
      show "\<exists>t\<in>set (timers ?s'). handle t = h' \<and> target t = q'"
      proof (cases "q' = q")
        case True
        with a assms(5) have "h' = next_handle s" by (simp add: js_get_js_set)
        with True show ?thesis by simp
      next
        case False
        with a have "js_get (activeSessions s) q' = Some session''" by (simp add: js_get_js_set)
        with a assms(1) show ?thesis unfolding tinv_def by fastforce
      qed
    qed
  qed
qed

lemma distinct_keys_fire_timers:
  "distinct (map fst reg) \<Longrightarrow> distinct (map fst (fire_timers ts reg))"
  by (induction ts arbitrary: reg) (simp_all add: distinct_js_delete)

lemma tinv_elapse:
  assumes "tinv s"
  shows "tinv (elapse d s)"
proof -
  let ?now = "clock s + d"
  let ?fired = "filter (\<lambda>t. due t \<le> ?now) (timers s)"
  let ?reg' = "fire_timers ?fired (activeSessions s)"
  have reg': "js_get ?reg' q = (if q \<in> target ` set ?fired then None else js_get (activeSessions s) q)"
    for q by (rule js_get_fire_timers)
  have dh: "distinct (map handle (timers s))" using assms by (simp add: tinv_def)
  have same_target: "t = t'"
    if "t \<in> set (timers s)" "t' \<in> set (timers s)" "target t = target t'" for t t'
  proof -
    from assms that(1) obtain session where "js_get (activeSessions s) (target t) = Some session"
      "cleanupTimeout session = Some (handle t)" unfolding tinv_def by blast
    moreover from assms that(2) obtain session' where
      "js_get (activeSessions s) (target t') = Some session'"
      "cleanupTimeout session' = Some (handle t')" unfolding tinv_def by blast
    ultimately have "handle t = handle t'" using that(3) by simp
    from same_handle [OF dh that(1,2) this] show ?thesis .
  qed
  have s': "activeSessions (elapse d s) = ?reg'" "clock (elapse d s) = ?now"
    "timers (elapse d s) = filter (\<lambda>t. ?now < due t) (timers s)"
    "next_handle (elapse d s) = next_handle s"
    by (simp_all add: elapse_def Let_def)
  show ?thesis
    unfolding tinv_def s'
  proof (intro conjI ballI allI impI)
    show "distinct (map fst ?reg')"
      using assms by (simp add: tinv_def distinct_keys_fire_timers)
    show "distinct (map handle (filter (\<lambda>t. ?now < due t) (timers s)))"
      using dh by (simp add: distinct_map_filter)
  next
    fix t assume "t \<in> set (filter (\<lambda>t. ?now < due t) (timers s))"
    then have t: "t \<in> set (timers s)" "?now < due t" by auto
    have "target t \<notin> target ` set ?fired"
    proof
      assume "target t \<in> target ` set ?fired"
      then obtain t' where t': "t' \<in> set (timers s)" "due t' \<le> ?now" "target t = target t'"
        by auto
      from same_target [OF t(1) t'(1,3)] t(2) t'(2) show False by simp
    qed
    then have g: "js_get ?reg' (target t) = js_get (activeSessions s) (target t)"
      by (simp add: reg')
    from assms t(1) show "handle t < next_handle s" by (simp add: tinv_def)
    from t(2) show "?now < due t" .
    from assms t(1) have "due t \<le> clock s + 60000" by (simp add: tinv_def)
    then show "due t \<le> ?now + 60000" by simp
    from assms t(1) g
    show "\<exists>session. js_get ?reg' (target t) = Some session \<and> cleanupTimeout session = Some (handle t)"
      by (simp add: tinv_def)
  next
    fix q session h
    assume a: "js_get ?reg' q = Some session \<and> cleanupTimeout session = Some h"
    then have nf: "q \<notin> target ` set ?fired" and g: "js_get (activeSessions s) q = Some session"
      by (auto simp: reg' split: if_splits)
    from assms g a obtain t where t: "t \<in> set (timers s)" "handle t = h" "target t = q"
      and e: "players session = []" unfolding tinv_def by blast
    from nf t have "?now < due t" by force
    with t e show "players session = []"
      "\<exists>t\<in>set (filter (\<lambda>t. ?now < due t) (timers s)). handle t = h \<and> target t = q"
      by auto
  qed
qed

lemma tinv_playing:
  assumes "tinv s" and "(q, session) \<in> set (activeSessions s)" and "players session \<noteq> []"
  shows "js_get (activeSessions s) q = Some session" and "cleanupTimeout session = None"
proof -
  from assms(1) have d: "distinct (map fst (activeSessions s))" by (simp add: tinv_def)
  from map_of_distinct_entry [OF d assms(2)] show g: "js_get (activeSessions s) q = Some session" .
  from assms(1,3) g show "cleanupTimeout session = None"
    unfolding tinv_def by (cases "cleanupTimeout session") auto
qed

lemma js_get_players_nonempty: "js_get ps c = Some p \<Longrightarrow> ps \<noteq> []"
  by (auto simp: js_get_def)

lemma tinv_request_session:
  assumes "tinv s" and "request_session c q playerInfo token e s = Returns (s', out)"
  shows "tinv s'"
  using assms(2)
proof (cases rule: request_session_Returns)
  case (created code)
  let ?new = "\<lparr>roomCode = code, quizId = q, players = [],
       adminToken = (if role playerInfo = Some ''admin'' then token else None),
       cleanupTimeout = None\<rparr>"
  let ?joined = "?new\<lparr>players := js_set c (playerInfo\<lparr>score := 0\<rparr>) []\<rparr>"
  let ?s1 = "s\<lparr>activeSessions := js_set q ?new (activeSessions s)\<rparr>"
  have 1: "tinv ?s1" using assms(1) created(1) by (intro tinv_update) simp_all
  have "tinv (?s1\<lparr>activeSessions := js_set q ?joined (activeSessions ?s1)\<rparr>)"
    using 1 by (rule tinv_update) (simp_all add: js_get_js_set)
  with created(3) show ?thesis by simp
next
  case (existing session)
  let ?joined = "session\<lparr>cleanupTimeout := None,
      players := js_set c (playerInfo\<lparr>score := 0\<rparr>) (players session)\<rparr>"
  show ?thesis
  proof (cases "cleanupTimeout session")
    case None
    have "tinv (s\<lparr>activeSessions := js_set q ?joined (activeSessions s)\<rparr>)"
      using assms(1) existing(1) None by (intro tinv_update) simp_all
    with existing(2) None show ?thesis by simp
  next
    case (Some h)
    have "tinv (s\<lparr>activeSessions := js_set q ?joined (activeSessions s),
        timers := clearTimeout h (timers s)\<rparr>)"
      using assms(1) existing(1) Some by (rule tinv_cancel) simp
    with existing(2) Some show ?thesis by simp
  qed
qed

lemma tinv_player_movement:
  assumes "tinv s"
  shows "tinv (fst (player_movement c rc px py s))"
proof (cases "find_room (activeSessions s) rc")
  case None
  with assms show ?thesis by (simp add: player_movement_def)
next
  case (Some e)
  obtain q session where e: "e = (q, session)" by (cases e)
  from find_room_Some [OF Some [unfolded e]] have m: "(q, session) \<in> set (activeSessions s)"
    by simp
  show ?thesis
  proof (cases "js_get (players session) c")
    case None
    with assms Some e show ?thesis by (simp add: player_movement_def)
  next
    case (Some p)
    from tinv_playing [OF assms m js_get_players_nonempty [OF Some]]
    have g: "js_get (activeSessions s) q = Some session" and n: "cleanupTimeout session = None" .
    have "tinv (s\<lparr>activeSessions := js_set q
        (session\<lparr>players := js_set c (p\<lparr>x := px, y := py\<rparr>) (players session)\<rparr>) (activeSessions s)\<rparr>)"
      using assms g n by (intro tinv_update) simp_all
    with \<open>find_room (activeSessions s) rc = Some e\<close> e Some show ?thesis
      by (simp add: player_movement_def)
  qed
qed

lemma tinv_update_score:
  assumes "tinv s"
  shows "tinv (fst (update_score c rc sc s))"
proof (cases "find_room (activeSessions s) rc")
  case None
  with assms show ?thesis by (simp add: update_score_def)
next
  case (Some e)
  obtain q session where e: "e = (q, session)" by (cases e)
  from find_room_Some [OF Some [unfolded e]] have m: "(q, session) \<in> set (activeSessions s)"
    by simp
  show ?thesis
  proof (cases "js_get (players session) c")
    case None
    with assms Some e show ?thesis by (simp add: update_score_def)
  next
    case (Some p)
    from tinv_playing [OF assms m js_get_players_nonempty [OF Some]]
    have g: "js_get (activeSessions s) q = Some session" and n: "cleanupTimeout session = None" .
    have "tinv (s\<lparr>activeSessions := js_set q
        (session\<lparr>players := js_set c (p\<lparr>score := sc\<rparr>) (players session)\<rparr>) (activeSessions s)\<rparr>)"
      using assms g n by (intro tinv_update) simp_all
    with \<open>find_room (activeSessions s) rc = Some e\<close> e Some show ?thesis
      by (simp add: update_score_def Let_def)
  qed
qed

lemma truthy_simps: "truthy None = False" "truthy (Some t) = (t \<noteq> [])"
  by (simp_all add: truthy_def)

lemma set_fire_timers: "set (fire_timers ts reg) \<subseteq> set reg"
proof (induction ts arbitrary: reg)
  case Nil
  show ?case by simp
next
  case (Cons t ts)
  have "set (fire_timers ts (js_delete (target t) reg)) \<subseteq> set (js_delete (target t) reg)"
    by (rule Cons.IH)
  also have "\<dots> \<subseteq> set reg" by (auto simp: js_delete_def)
  finally show ?case by simp
qed

lemma find_player_player:
  "find_player reg c = Some (q, session) \<Longrightarrow> js_get (players session) c \<noteq> None"
  unfolding find_player_def by (induction reg) (auto split: if_splits)

lemma tinv_disconnect:
  assumes "tinv s"
  shows "tinv (fst (disconnect c s))"
proof (cases "find_player (activeSessions s) c")
  case None
  with assms show ?thesis by (simp add: disconnect_def)
next
  case (Some e)
  obtain q session where e: "e = (q, session)" by (cases e)
  from find_player_Some [OF Some [unfolded e]] have m: "(q, session) \<in> set (activeSessions s)" .
  from find_player_player [OF Some [unfolded e]] have "players session \<noteq> []"
    by (auto simp: js_get_def)
  from tinv_playing [OF assms m this]
  have g: "js_get (activeSessions s) q = Some session" and n: "cleanupTimeout session = None" .
  have keep: "tinv (s\<lparr>activeSessions := js_set q session' (activeSessions s)\<rparr>)"
    if "cleanupTimeout session' = None" for session'
    using assms g n that by (intro tinv_update) simp_all
  have arm: "tinv (s\<lparr>activeSessions := js_set q session' (activeSessions s),
        timers := timers s @ [\<lparr>handle = next_handle s, due = clock s + 60000, target = q\<rparr>],
        next_handle := Suc (next_handle s)\<rparr>)"
    if "players session' = []" "cleanupTimeout session' = Some (next_handle s)" for session'
    using assms g n that by (rule tinv_arm)
  from Some e n show ?thesis
    by (simp add: disconnect_def Let_def keep arm truthy_simps)
qed

lemma tinv_step:
  assumes "tinv s" and "original e" and "step e s = Returns (s', out)"
  shows "tinv s'"
proof (cases e)
  case (RequestSession c q playerInfo token rnd)
  with assms show ?thesis by (auto intro: tinv_request_session)
next
  case (PlayerMovement c rc px py)
  with assms tinv_player_movement [of s c rc px py] show ?thesis by auto
next
  case (UpdateScore c rc sc)
  with assms tinv_update_score [of s c rc sc] show ?thesis by auto
next
  case (AdminEndQuiz c rc token resp)
  with assms show ?thesis by simp
next
  case (Disconnect c)
  with assms tinv_disconnect [of s c] show ?thesis by auto
next
  case (Elapse d)
  with assms tinv_elapse [of s d] show ?thesis by auto
qed

lemma reachable0_tinv: "reachable0 s \<Longrightarrow> tinv s"
proof (induction rule: reachable0.induct)
  case reachable0_init
  show ?case by (simp add: init_def tinv_def js_get_def)
next
  case (reachable0_step s e s' out)
  then show ?case by (blast intro: tinv_step)
qed

lemma reachable0_reachable: "reachable0 s \<Longrightarrow> reachable s"
  by (induction rule: reachable0.induct) (auto intro: reachable.intros)

text \<open>
  In every state that \<^verbatim>\<open>part_000\<close> reaches, a session that records a cleanup handle is
  empty and its timer is pending, due within 60 seconds; the session stays until the
  timer is due and from then on can be found neither by its quiz id nor by its room
  code. A \<^verbatim>\<open>request_session\<close> for the quiz before that reuses the session with its room
  code, and no timer removes it afterwards.
\<close>

lemma grace_window:
  assumes "reachable0 s" and "js_get (activeSessions s) q = Some session"
    and "cleanupTimeout session = Some h"
  shows "players session = []"
    and "\<exists>t\<in>set (timers s). handle t = h \<and> target t = q \<and> clock s < due t \<and>
           due t \<le> clock s + 60000 \<and>
           (\<forall>d. (clock s + d < due t \<longrightarrow>
                  js_get (activeSessions (elapse d s)) q = Some session) \<and>
                (due t \<le> clock s + d \<longrightarrow>
                  js_get (activeSessions (elapse d s)) q = None \<and>
                  find_room (activeSessions (elapse d s)) (roomCode session) = None))"
proof -
  from reachable0_tinv [OF assms(1)] have inv: "tinv s" .
  from inv assms(2,3) show "players session = []" unfolding tinv_def by blast
  from inv assms(2,3) obtain t where t: "t \<in> set (timers s)" "handle t = h" "target t = q"
    unfolding tinv_def by blast
  with inv have b: "clock s < due t" "due t \<le> clock s + 60000" by (auto simp: tinv_def)
  have only: "t' = t" if "t' \<in> set (timers s)" "target t' = q" for t'
  proof -
    from tinv_timers_of [OF inv assms(2,3) that(1)] that(2) have "handle t' = h" by simp
    moreover from inv have "distinct (map handle (timers s))" by (simp add: tinv_def)
    ultimately show ?thesis using same_handle that(1) t(1,2) by metis
  qed
  have early: "js_get (activeSessions (elapse d s)) q = Some session" if "clock s + d < due t" for d
  proof -
    have "\<forall>t'\<in>set (timers s). target t' = q \<longrightarrow> clock s + d < due t'"
      using only that by blast
    from elapse_keeps [OF this] assms(2) show ?thesis by simp
  qed
  have late: "js_get (activeSessions (elapse d s)) q = None \<and>
      find_room (activeSessions (elapse d s)) (roomCode session) = None"
    if "due t \<le> clock s + d" for d
  proof
    from elapse_fires(1) [OF t(1) that] t(3)
    show gone: "js_get (activeSessions (elapse d s)) q = None" by simp
    from reachable_wf [OF reachable0_reachable [OF assms(1)]]
    have wf: "wf_reg (activeSessions s)" .
    have m: "(q, session) \<in> set (activeSessions s)" using assms(2) by (rule entry_of_js_get)
    have inj: "inj_on (\<lambda>e. roomCode (snd e)) (set (activeSessions s))"
      using wf by (simp add: wf_reg_def distinct_map)
    have sub: "e \<in> set (activeSessions s) \<and> js_get (activeSessions (elapse d s)) (fst e) \<noteq> None"
      if "e \<in> set (activeSessions (elapse d s))" for e
    proof -
      have "js_get (activeSessions (elapse d s)) (fst e) \<noteq> None"
        using that by (simp add: js_get_None_iff)
      moreover have "e \<in> set (activeSessions s)"
        using that set_fire_timers by (auto simp: elapse_def Let_def)
      ultimately show ?thesis by simp
    qed
    show "find_room (activeSessions (elapse d s)) (roomCode session) = None"
      unfolding find_room_None_iff
    proof
      fix e assume e: "e \<in> set (activeSessions (elapse d s))"
      show "roomCode (snd e) \<noteq> roomCode session"
      proof
        assume "roomCode (snd e) = roomCode session"
        then have "roomCode (snd e) = roomCode (snd (q, session))" by simp
        from inj_onD [OF inj this] sub [OF e] m have "e = (q, session)" by blast
        with sub [OF e] gone show False by simp
      qed
    qed
  qed
  from t b early late
  show "\<exists>t\<in>set (timers s). handle t = h \<and> target t = q \<and> clock s < due t \<and>
           due t \<le> clock s + 60000 \<and>
           (\<forall>d. (clock s + d < due t \<longrightarrow>
                  js_get (activeSessions (elapse d s)) q = Some session) \<and>
                (due t \<le> clock s + d \<longrightarrow>
                  js_get (activeSessions (elapse d s)) q = None \<and>
                  find_room (activeSessions (elapse d s)) (roomCode session) = None))"
    by blast
qed

lemma grace_join:
  assumes "reachable0 s" and "js_get (activeSessions s) q = Some session"
    and "cleanupTimeout session = Some h"
  shows "\<exists>s' out session'.
      request_session c q playerInfo token e s = Returns (s', out) \<and>
      js_get (activeSessions s') q = Some session' \<and>
      roomCode session' = roomCode session \<and>
      players session' = [(c, playerInfo\<lparr>score := 0\<rparr>)] \<and>
      cleanupTimeout session' = None \<and>
      (\<forall>d. js_get (activeSessions (elapse d s')) q = Some session')"
proof -
  from reachable0_tinv [OF assms(1)] have inv: "tinv s" .
  from inv assms(2,3) have e: "players session = []" unfolding tinv_def by blast
  let ?joined = "session\<lparr>cleanupTimeout := None,
      players := js_set c (playerInfo\<lparr>score := 0\<rparr>) (players session)\<rparr>"
  let ?s' = "s\<lparr>activeSessions := js_set q ?joined (activeSessions s),
      timers := clearTimeout h (timers s)\<rparr>"
  have r: "\<exists>out. request_session c q playerInfo token e s = Returns (?s', out)"
    using assms(2,3) js_lookup_Own [OF assms(2)] by (simp add: request_session_def Let_def)
  then obtain out where r': "request_session c q playerInfo token e s = Returns (?s', out)" ..
  have inv': "tinv ?s'" using inv r' by (rule tinv_request_session)
  have g: "js_get (activeSessions ?s') q = Some ?joined" by (simp add: js_get_js_set)
  have "\<forall>t\<in>set (timers ?s'). target t \<noteq> q"
    using inv' g by (intro tinv_no_timer) auto
  then have "\<forall>t\<in>set (timers ?s'). target t = q \<longrightarrow> clock ?s' + d < due t" for d by blast
  from elapse_keeps [OF this] g
  have k: "\<forall>d. js_get (activeSessions (elapse d ?s')) q = Some ?joined" by simp
  have p: "players ?joined = [(c, playerInfo\<lparr>score := 0\<rparr>)]"
    using e by (simp add: js_set_def js_get_def)
  from r' g k p show ?thesis by (intro exI [of _ ?s'] exI [of _ out] exI [of _ ?joined]) simp
qed

section \<open>Claims C2 and C3: the server with two indexes\<close>

text \<open>
  Claim C2: a pending eviction and a session with players exclude each other, because
  every join cancels a pending eviction before it adds the player.

  In \<^verbatim>\<open>part_002\<close> only \<^verbatim>\<open>request_session\<close> cancels the timer, and only \<^verbatim>\<open>join_game\<close> adds a
  player. After the last player has left, a player who joins with the room code is added
  while the timer stays pending (the session object has a player and its
  \<^verbatim>\<open>cleanupTimeout\<close>), and at the end of the grace period the session is removed from both
  indexes with the player still in it.
\<close>

theorem join_game_keeps_eviction:
  "map_option view2
     (run2 [RequestSession2 ''a'' ''quiz42'' tape_A, JoinGame ''a'' ''AAAAAA'' alice,
            Disconnect2 ''a'', JoinGame ''b'' ''AAAAAA'' bob] init2) =
     Some ([(''quiz42'', 0)], [(''AAAAAA'', 0)], [\<lparr>handle = 0, due = 60000, target = 0\<rparr>],
           [room_A [(''b'', bob)] None (Some 0)]) \<and>
   map_option view2
     (run2 [RequestSession2 ''a'' ''quiz42'' tape_A, JoinGame ''a'' ''AAAAAA'' alice,
            Disconnect2 ''a'', JoinGame ''b'' ''AAAAAA'' bob, Elapse2 60000] init2) =
     Some ([], [], [], [room_A [(''b'', bob)] None (Some 0)])"
  by (simp add: handler2_eval obj_eval scenario_eval)

text \<open>
  Claim C3: in every reachable state the two indexes hold the same sessions.

  Because \<^verbatim>\<open>join_game\<close> does not cancel the timer, a session can be emptied twice and then
  has two pending timers. The first one removes the session; a later
  \<^verbatim>\<open>request_session\<close> for the same quiz creates a new session under a new room code; the
  second timer then deletes the entry of the quiz, which is the new session, from
  \<^verbatim>\<open>activeSessionsByQuizId\<close>, and the old room code from \<^verbatim>\<open>activeSessionsByRoomCode\<close>, where
  the new session stays. The run ends with the new session in the room code index only.
\<close>

theorem stale_timer_splits_indexes:
  "map_option view2
     (run2 [RequestSession2 ''a'' ''quiz42'' tape_A, JoinGame ''a'' ''AAAAAA'' alice,
            Disconnect2 ''a'', Elapse2 10000,
            JoinGame ''b'' ''AAAAAA'' bob, Disconnect2 ''b'', Elapse2 50000,
            RequestSession2 ''c'' ''quiz42'' tape_B, Elapse2 10000] init2) =
     Some ([], [(''BBBBBB'', 1)], [],
           [room_A [] None (Some 1),
            \<lparr>roomCode = ''BBBBBB'', quizId = ''quiz42'', players = [], adminToken = None,
              cleanupTimeout = None\<rparr>])"
  by (simp add: handler2_eval obj_eval scenario_eval)

end
